theory Spec2Isabelle
  imports Main "HOL-Library.AList"
begin

section \<open>Data model\<close>

text \<open>
  A user document of the \<open>users\<close> collection. Identifiers are the integers the
  handlers store (\<open>parseInt\<close> of an integer is the integer itself, so the
  normalisation \<open>map(parseInt).filter(!isNaN)\<close> of the source is the identity on
  these lists). The field \<open>id\<close> of the source is \<open>uid\<close> here. A counter that is
  missing reads as 0 everywhere in the source (\<open>|| 0\<close>, \<open>$inc\<close>) and an array that
  is missing reads as \<open>[]\<close>, so the record holds the value read; the reset
  timestamp may be missing. Fields that only feed the displayed text (age, bio,
  intention, photos, username) are left out.
\<close>

record profile =
  uid :: int
  name :: string
  gender :: string
  looking :: string
  likes :: "int list"
  matches :: "int list"
  recentLikes :: "int list"
  dailySwipes :: int
  lastSwipeReset :: "int option"
  purchasedSwipes :: int

record deletionReason =
  userId :: int
  reason :: string
  timestamp :: int

text \<open>
  The storage backend: the two collections the modelled handlers touch, and whether
  the backend answers. A call to an unreachable backend throws; the flag is fixed
  for the duration of one handler.
\<close>

record database =
  usersCollection :: "profile list"
  deletionReasonsCollection :: "deletionReason list"
  reachable :: bool

datatype error = StorageError | ReferenceError | TypeError

text \<open>The wall clock of one handler run: milliseconds since the epoch, and the
  offset of local time from UTC in milliseconds.\<close>

record clock =
  now :: int
  tzOffset :: int

record swipes =
  free :: int
  purchased :: int
  total :: int

section \<open>Storage calls\<close>

definition findOne :: "database \<Rightarrow> int \<Rightarrow> error + profile option" where
  "findOne d k =
     (if reachable d then Inr (find (\<lambda>u. uid u = k) (usersCollection d))
      else Inl StorageError)"

fun updateFirst :: "int \<Rightarrow> (profile \<Rightarrow> profile) \<Rightarrow> profile list \<Rightarrow> profile list" where
  "updateFirst k f [] = []"
| "updateFirst k f (u # us) = (if uid u = k then f u # us else u # updateFirst k f us)"

definition updateOne :: "database \<Rightarrow> int \<Rightarrow> (profile \<Rightarrow> profile) \<Rightarrow> error + database" where
  "updateOne d k f =
     (if reachable d then Inr (d\<lparr>usersCollection := updateFirst k f (usersCollection d)\<rparr>)
      else Inl StorageError)"

fun deleteFirst :: "int \<Rightarrow> profile list \<Rightarrow> profile list" where
  "deleteFirst k [] = []"
| "deleteFirst k (u # us) = (if uid u = k then us else u # deleteFirst k us)"

definition deleteOne :: "database \<Rightarrow> int \<Rightarrow> error + database" where
  "deleteOne d k =
     (if reachable d then Inr (d\<lparr>usersCollection := deleteFirst k (usersCollection d)\<rparr>)
      else Inl StorageError)"

definition findAll :: "database \<Rightarrow> error + profile list" where
  "findAll d = (if reachable d then Inr (usersCollection d) else Inl StorageError)"

definition countDocuments :: "database \<Rightarrow> error + nat" where
  "countDocuments d = (if reachable d then Inr (length (usersCollection d)) else Inl StorageError)"

definition insertOne :: "database \<Rightarrow> deletionReason \<Rightarrow> error + database" where
  "insertOne d r =
     (if reachable d
      then Inr (d\<lparr>deletionReasonsCollection := deletionReasonsCollection d @ [r]\<rparr>)
      else Inl StorageError)"

text \<open>
  \<open>loadDB\<close> builds the object \<open>users\<close> by \<open>users[user.id] = user\<close> over the
  documents in order: an assignment to a key already present replaces its value in
  place. The object is an association list; \<open>db.users[k]\<close> is \<open>map_of\<close>,
  \<open>Object.values\<close> is \<open>map snd\<close>. A storage failure is caught and gives the empty
  object.
\<close>

definition loadDB :: "database \<Rightarrow> (int \<times> profile) list" where
  "loadDB d =
     (case findAll d of
        Inl e \<Rightarrow> []
      | Inr usersArray \<Rightarrow> fold (\<lambda>user users. AList.update (uid user) user users) usersArray [])"

text \<open>The helpers below catch the storage error and return \<open>false\<close>; no caller
  reads that result, so the model returns the database only.\<close>

definition deleteUser :: "int \<Rightarrow> database \<Rightarrow> database" where
  "deleteUser k d = (case deleteOne d k of Inl e \<Rightarrow> d | Inr d' \<Rightarrow> d')"

definition saveDeletionReason :: "deletionReason \<Rightarrow> database \<Rightarrow> database" where
  "saveDeletionReason r d = (case insertOne d r of Inl e \<Rightarrow> d | Inr d' \<Rightarrow> d')"

definition updateUserArrays :: "int \<Rightarrow> (profile \<Rightarrow> profile) \<Rightarrow> database \<Rightarrow> database" where
  "updateUserArrays k updates d = (case updateOne d k updates of Inl e \<Rightarrow> d | Inr d' \<Rightarrow> d')"

section \<open>Rate limiter\<close>

text \<open>Local midnight of the day of a timestamp, as
  \<open>new Date(t.getFullYear(), t.getMonth(), t.getDate())\<close> gives it for a fixed
  offset of local time.\<close>

definition startOfDay :: "int \<Rightarrow> int \<Rightarrow> int" where
  "startOfDay tz t = t - (t + tz) mod 86400000"

definition checkAndResetDailySwipes :: "clock \<Rightarrow> int \<Rightarrow> database \<Rightarrow> int \<times> database" where
  "checkAndResetDailySwipes clk k d =
     (case findOne d k of
        Inl e \<Rightarrow> (0, d)
      | Inr None \<Rightarrow> (0, d)
      | Inr (Some user) \<Rightarrow>
          (let today = startOfDay (tzOffset clk) (now clk);
               lastResetDate =
                 (case lastSwipeReset user of
                    None \<Rightarrow> None
                  | Some t \<Rightarrow> if t = 0 then None else Some (startOfDay (tzOffset clk) t))
           in if lastResetDate \<noteq> Some today
              then (case updateOne d k (\<lambda>u. u\<lparr>dailySwipes := 0, lastSwipeReset := Some today\<rparr>) of
                      Inl e \<Rightarrow> (0, d)
                    | Inr d' \<Rightarrow> (0, d'))
              else (dailySwipes user, d)))"

definition incrementDailySwipes :: "clock \<Rightarrow> int \<Rightarrow> database \<Rightarrow> int \<times> database" where
  "incrementDailySwipes clk k d =
     (let d1 = snd (checkAndResetDailySwipes clk k d)
      in case updateOne d1 k (\<lambda>u. u\<lparr>dailySwipes := dailySwipes u + 1\<rparr>) of
           Inl e \<Rightarrow> (0, d1)
         | Inr d2 \<Rightarrow>
             (case findOne d2 k of
                Inl e \<Rightarrow> (0, d2)
              | Inr None \<Rightarrow> (0, d2)
              | Inr (Some user) \<Rightarrow> (dailySwipes user, d2)))"

definition noSwipes :: swipes where
  "noSwipes = \<lparr>free = 0, purchased = 0, total = 0\<rparr>"

definition getAvailableSwipes :: "clock \<Rightarrow> int \<Rightarrow> database \<Rightarrow> swipes \<times> database" where
  "getAvailableSwipes clk k d =
     (case findOne d k of
        Inl e \<Rightarrow> (noSwipes, d)
      | Inr None \<Rightarrow> (noSwipes, d)
      | Inr (Some user) \<Rightarrow>
          (let (daily, d1) = checkAndResetDailySwipes clk k d;
               freeSwipesRemaining = max 0 (20 - daily)
           in (\<lparr>free = freeSwipesRemaining, purchased = purchasedSwipes user,
                total = freeSwipesRemaining + purchasedSwipes user\<rparr>, d1)))"

section \<open>Sessions\<close>

text \<open>
  The dialogue step of a session. The source keeps a string tag; the steps of the
  message flow are \<open>waiting_message_<id>\<close>, and every other tag belongs to the
  profile creation and edit dialogue, which is outside this development.
\<close>

datatype dialogueStep = WaitingMessage int | Dialogue string

record session =
  queue :: "profile list option"
  shown :: "int list"
  lastPreference :: "string option"
  waitingForDeletionReason :: bool
  step :: "dialogueStep option"
  messageTargetId :: "int option"

text \<open>The process: the storage backend and the process-wide \<open>sessions\<close> object.\<close>

record world =
  db :: database
  sessions :: "int \<rightharpoonup> session"

definition freshSession :: session where
  "freshSession = \<lparr>queue = Some [], shown = [], lastPreference = None,
     waitingForDeletionReason = False, step = None, messageTargetId = None\<rparr>"

text \<open>
  \<open>getSession\<close> creates the entry on first access and returns a reference to it.
  The model reads through the reference with \<open>sessionOf\<close> and writes through it
  with \<open>updSession\<close>.
\<close>

definition sessionOf :: "world \<Rightarrow> int \<Rightarrow> session" where
  "sessionOf w k = (case sessions w k of None \<Rightarrow> freshSession | Some s \<Rightarrow> s)"

definition updSession :: "int \<Rightarrow> (session \<Rightarrow> session) \<Rightarrow> world \<Rightarrow> world" where
  "updSession k f w = w\<lparr>sessions := (sessions w)(k \<mapsto> f (sessionOf w k))\<rparr>"

definition getSession :: "int \<Rightarrow> world \<Rightarrow> world" where
  "getSession k w = updSession k (\<lambda>s. s) w"

text \<open>The test \<open>!session.queue || session.queue.length === 0\<close>.\<close>

definition queueEmpty :: "profile list option \<Rightarrow> bool" where
  "queueEmpty q = (case q of None \<Rightarrow> True | Some xs \<Rightarrow> xs = [])"

section \<open>Candidate queue builder\<close>

definition meLikesTargetGender :: "profile \<Rightarrow> profile \<Rightarrow> bool" where
  "meLikesTargetGender me u =
     ((looking me = ''men'' \<and> gender u = ''male'') \<or>
      (looking me = ''women'' \<and> gender u = ''female''))"

definition targetLikesMeGender :: "profile \<Rightarrow> profile \<Rightarrow> bool" where
  "targetLikesMeGender me u =
     ((looking u = ''men'' \<and> gender me = ''male'') \<or>
      (looking u = ''women'' \<and> gender me = ''female''))"

text \<open>The two filters of \<open>buildCandidateQueue\<close>, over the valid users
  (\<open>u.id\<close> truthy): the strict one with the bidirectional preference check, and
  the one without it.\<close>

definition strictFilter :: "profile \<Rightarrow> int \<Rightarrow> bool \<Rightarrow> int list \<Rightarrow> profile \<Rightarrow> bool" where
  "strictFilter me userIdNum excludeShown shownIds u =
     (if uid u = 0 then False
      else if uid u = userIdNum then False
      else if excludeShown \<and> uid u \<in> set shownIds then False
      else meLikesTargetGender me u \<and> targetLikesMeGender me u)"

definition relaxedFilter :: "int \<Rightarrow> bool \<Rightarrow> int list \<Rightarrow> profile \<Rightarrow> bool" where
  "relaxedFilter userIdNum excludeShown shownIds u =
     (if uid u = 0 then False
      else if uid u = userIdNum then False
      else if excludeShown \<and> uid u \<in> set shownIds then False
      else True)"

function buildCandidateQueue :: "int \<Rightarrow> bool \<Rightarrow> world \<Rightarrow> profile list option \<times> world" where
  "buildCandidateQueue k excludeShown w =
     (let users = loadDB (db w) in
      case map_of users k of
        None \<Rightarrow> (None, w)
      | Some me \<Rightarrow>
          (let w1 = getSession k w;
               shownIds = (if excludeShown then shown (sessionOf w1 k) else []);
               allUsers = filter (\<lambda>u. uid u \<noteq> 0) (map snd users);
               candidates = filter (strictFilter me k excludeShown shownIds) allUsers
           in if candidates = [] \<and> excludeShown \<and> shownIds \<noteq> []
              then buildCandidateQueue k False (updSession k (\<lambda>s. s\<lparr>shown := []\<rparr>) w1)
              else if candidates = []
              then (let candidates2 = filter (relaxedFilter k excludeShown shownIds) allUsers
                    in if candidates2 = [] \<and> excludeShown \<and> shownIds \<noteq> []
                       then buildCandidateQueue k True (updSession k (\<lambda>s. s\<lparr>shown := []\<rparr>) w1)
                       else (Some (sort_key uid candidates2), w1))
              else (Some (sort_key uid candidates), w1)))"
  by pat_completeness auto
termination
  by (relation "measure (\<lambda>(k, excludeShown, w).
        if excludeShown \<and> shown (sessionOf w k) \<noteq> [] then 1 else 0)")
     (auto simp: getSession_def updSession_def sessionOf_def)

section \<open>Replies\<close>

text \<open>What a handler sends: the replies to the acting user and the notices to a
  target, in order, without their wording. Acknowledgements of button presses are
  left out, and the transport is taken to deliver.\<close>

datatype reply =
    CreateProfileFirst
  | LostProfile
  | NoOtherPeople
  | NoNewPeople
  | PurchaseOffer
  | ShowProfile profile
  | Matched int
  | NotifyMatch int
  | NotifyLike int
  | ForwardMessage int string
  | MessageSent int
  | AskMessage int
  | UserNotFound
  | AskDeletionReason
  | NoProfileToDelete
  | AccountDeleted
  | PassToCommands

definition setQueue :: "int \<Rightarrow> (profile list option \<times> world) \<Rightarrow> world" where
  "setQueue k r = updSession k (\<lambda>s. s\<lparr>queue := fst r\<rparr>) (snd r)"

section \<open>Showing one profile from the queue\<close>

text \<open>The blocks of \<open>showCandidate\<close>, in the order of the source. Each returns
  either what the function returns at that point, or the state to go on with.
  First the profile check and the swipe limit.\<close>

definition checkProfileAndLimit ::
    "clock \<Rightarrow> int \<Rightarrow> world \<Rightarrow> ((error + reply list) \<times> world) + world" where
  "checkProfileAndLimit clk k w =
     (case findOne (db w) k of
        Inl e \<Rightarrow> Inl (Inl e, w)
      | Inr None \<Rightarrow> Inl (Inr [LostProfile], w)
      | Inr (Some userExists) \<Rightarrow>
          (let (availableSwipes, d1) = getAvailableSwipes clk k (db w);
               w1 = w\<lparr>db := d1\<rparr>
           in if total availableSwipes \<le> 0 then Inl (Inr [PurchaseOffer], w1) else Inr w1))"

text \<open>The rebuild of an empty queue. Its last error message reads the variable
  \<open>totalUsers\<close>, which \<open>showCandidate\<close> does not declare: the branch throws a
  \<open>ReferenceError\<close>.\<close>

definition rebuildWhenEmpty :: "int \<Rightarrow> world \<Rightarrow> ((error + reply list) \<times> world) + world" where
  "rebuildWhenEmpty k w =
     (if queueEmpty (queue (sessionOf w k))
      then (case countDocuments (db w) of
              Inl e \<Rightarrow> Inl (Inl e, w)
            | Inr totalUsersCount \<Rightarrow>
                if totalUsersCount > 1
                then (let w1 = (if shown (sessionOf w k) \<noteq> []
                                then updSession k (\<lambda>s. s\<lparr>shown := []\<rparr>) w else w);
                          w2 = setQueue k (buildCandidateQueue k True w1);
                          w3 = (if queueEmpty (queue (sessionOf w2 k))
                                then setQueue k (buildCandidateQueue k False w2)
                                else w2)
                      in if queueEmpty (queue (sessionOf w3 k))
                         then Inl (Inl ReferenceError, w3)
                         else Inr w3)
                else Inl (Inr [NoOtherPeople], w))
      else Inr w)"

text \<open>The ``final rebuild attempt'' before the queue is read.\<close>

definition lastResortRebuild :: "int \<Rightarrow> world \<Rightarrow> world" where
  "lastResortRebuild k w =
     (if queueEmpty (queue (sessionOf w k)) then setQueue k (buildCandidateQueue k True w) else w)"

text \<open>Marking the target as shown, without a duplicate entry.\<close>

definition markShown :: "int \<Rightarrow> int \<Rightarrow> world \<Rightarrow> world" where
  "markShown k targetId w =
     (if targetId \<notin> set (shown (sessionOf w k))
      then updSession k (\<lambda>s. s\<lparr>shown := shown s @ [targetId]\<rparr>) w
      else w)"

definition invalidTargets :: "world \<Rightarrow> int \<Rightarrow> nat" where
  "invalidTargets w k =
     (case queue (sessionOf w k) of None \<Rightarrow> 0 | Some q \<Rightarrow> length (filter (\<lambda>u. uid u = 0) q))"

lemma sessionOf_updSession [simp]:
  "sessionOf (updSession k f w) j = (if j = k then f (sessionOf w k) else sessionOf w j)"
  by (simp add: sessionOf_def updSession_def)

lemma sessionOf_getSession [simp]: "sessionOf (getSession k w) j = sessionOf w j"
  by (simp add: getSession_def)

lemma sessionOf_db_update [simp]: "sessionOf (w\<lparr>db := d\<rparr>) j = sessionOf w j"
  by (simp add: sessionOf_def)

lemma db_updSession [simp]: "db (updSession k f w) = db w"
  by (simp add: updSession_def)

lemma db_getSession [simp]: "db (getSession k w) = db w"
  by (simp add: getSession_def)

declare buildCandidateQueue.simps [simp del]

definition validUsers :: "database \<Rightarrow> profile list" where
  "validUsers d = filter (\<lambda>u. uid u \<noteq> 0) (map snd (loadDB d))"

lemma strictFilter_noshown [simp]:
  "strictFilter me k True [] = strictFilter me k False []"
  by (auto simp: strictFilter_def fun_eq_iff)

lemma relaxedFilter_noshown [simp]:
  "relaxedFilter k True [] = relaxedFilter k False []"
  by (auto simp: relaxedFilter_def fun_eq_iff)

lemma build_noshown:
  assumes "map_of (loadDB (db w)) k = Some me" "\<not> e \<or> shown (sessionOf w k) = []"
  shows "buildCandidateQueue k e w =
     (Some (sort_key uid
        (if filter (strictFilter me k False []) (validUsers (db w)) = []
         then filter (relaxedFilter k False []) (validUsers (db w))
         else filter (strictFilter me k False []) (validUsers (db w)))), getSession k w)"
  using assms
  by (subst buildCandidateQueue.simps) (auto simp: Let_def validUsers_def)

lemma build_shown:
  assumes "map_of (loadDB (db w)) k = Some me" "shown (sessionOf w k) \<noteq> []"
  shows "buildCandidateQueue k True w =
     (if filter (strictFilter me k True (shown (sessionOf w k))) (validUsers (db w)) = []
      then buildCandidateQueue k False (updSession k (\<lambda>s. s\<lparr>shown := []\<rparr>) (getSession k w))
      else (Some (sort_key uid (filter (strictFilter me k True (shown (sessionOf w k))) (validUsers (db w)))),
            getSession k w))"
  using assms
  by (subst buildCandidateQueue.simps) (simp add: Let_def validUsers_def)

lemma build_noprofile:
  "map_of (loadDB (db w)) k = None \<Longrightarrow> buildCandidateQueue k e w = (None, w)"
  by (subst buildCandidateQueue.simps) simp


lemma getSession_updSession [simp]: "getSession k (updSession k f w) = updSession k f w"
  by (simp add: getSession_def updSession_def sessionOf_def)

lemma updSession_getSession [simp]: "updSession k f (getSession k w) = updSession k f w"
  by (simp add: getSession_def updSession_def sessionOf_def)

lemma updSession_updSession [simp]:
  "updSession k f (updSession k g w) = updSession k (\<lambda>s. f (g s)) w"
  by (simp add: updSession_def sessionOf_def)

lemma getSession_idem [simp]: "getSession k (getSession k w) = getSession k w"
  by (simp add: getSession_def)

definition candidatePool :: "profile \<Rightarrow> int \<Rightarrow> database \<Rightarrow> profile list" where
  "candidatePool me k d =
     sort_key uid
       (if filter (strictFilter me k False []) (validUsers d) = []
        then filter (relaxedFilter k False []) (validUsers d)
        else filter (strictFilter me k False []) (validUsers d))"

lemma build_False:
  "map_of (loadDB (db w)) k = Some me \<Longrightarrow>
   buildCandidateQueue k False w = (Some (candidatePool me k (db w)), getSession k w)"
  by (simp add: build_noshown candidatePool_def)

lemma build_True_fresh:
  "map_of (loadDB (db w)) k = Some me \<Longrightarrow> shown (sessionOf w k) = [] \<Longrightarrow>
   buildCandidateQueue k True w = (Some (candidatePool me k (db w)), getSession k w)"
  by (simp add: build_noshown candidatePool_def)

lemma build_True_shown:
  assumes "map_of (loadDB (db w)) k = Some me" "shown (sessionOf w k) \<noteq> []"
  shows "buildCandidateQueue k True w =
     (if filter (strictFilter me k True (shown (sessionOf w k))) (validUsers (db w)) = []
      then (Some (candidatePool me k (db w)), updSession k (\<lambda>s. s\<lparr>shown := []\<rparr>) w)
      else (Some (sort_key uid (filter (strictFilter me k True (shown (sessionOf w k))) (validUsers (db w)))),
            getSession k w))"
  using assms by (simp add: build_shown build_False)

lemma validUsers_valid: "u \<in> set (validUsers d) \<Longrightarrow> uid u \<noteq> 0"
  by (simp add: validUsers_def)

lemma candidatePool_valid: "u \<in> set (candidatePool me k d) \<Longrightarrow> uid u \<noteq> 0"
  by (auto simp: candidatePool_def validUsers_def split: if_splits)

lemma buildCandidateQueue_valid:
  assumes "buildCandidateQueue k e w = (Some q, w')"
  shows "\<forall>u\<in>set q. uid u \<noteq> 0"
proof (cases "map_of (loadDB (db w)) k")
  case None
  with assms show ?thesis by (simp add: build_noprofile)
next
  case (Some me)
  show ?thesis
  proof (cases "e \<and> shown (sessionOf w k) \<noteq> []")
    case True
    with assms Some show ?thesis
      by (auto simp: build_True_shown candidatePool_valid validUsers_valid split: if_splits)
  next
    case False
    with assms Some have "q = candidatePool me k (db w)"
      by (cases e) (auto simp: build_False build_True_fresh)
    then show ?thesis by (simp add: candidatePool_valid)
  qed
qed

lemma buildCandidateQueue_db: "db (snd (buildCandidateQueue k e w)) = db w"
proof (cases "map_of (loadDB (db w)) k")
  case None
  then show ?thesis by (simp add: build_noprofile)
next
  case (Some me)
  then show ?thesis
    by (cases e; cases "shown (sessionOf w k) = []")
       (simp_all add: build_False build_True_fresh build_True_shown)
qed

lemma invalidTargets_build: "invalidTargets (setQueue k (buildCandidateQueue k e w)) k = 0"
proof (cases "buildCandidateQueue k e w")
  case (Pair q w')
  then show ?thesis
    using buildCandidateQueue_valid[of k e w _ w']
    by (cases q) (auto simp: invalidTargets_def setQueue_def filter_empty_conv)
qed

lemma rebuildWhenEmpty_Inr:
  assumes "rebuildWhenEmpty k w = Inr w'"
  shows "\<not> queueEmpty (queue (sessionOf w' k)) \<and> (w' = w \<or> invalidTargets w' k = 0)"
proof (cases "queueEmpty (queue (sessionOf w k))")
  case False
  with assms show ?thesis by (simp add: rebuildWhenEmpty_def)
next
  case True
  define w1 where "w1 = (if shown (sessionOf w k) \<noteq> [] then updSession k (\<lambda>s. s\<lparr>shown := []\<rparr>) w else w)"
  define w2 where "w2 = setQueue k (buildCandidateQueue k True w1)"
  define w3 where "w3 = (if queueEmpty (queue (sessionOf w2 k))
      then setQueue k (buildCandidateQueue k False w2) else w2)"
  from assms True have w': "w' = w3" and ne: "\<not> queueEmpty (queue (sessionOf w3 k))"
    by (auto simp: rebuildWhenEmpty_def Let_def w1_def w2_def w3_def
             split: sum.splits if_splits)
  have "invalidTargets w3 k = 0"
    by (simp add: w3_def w2_def invalidTargets_build)
  with w' ne show ?thesis by simp
qed

function showCandidate :: "clock \<Rightarrow> int \<Rightarrow> world \<Rightarrow> (error + reply list) \<times> world" where
  "showCandidate clk k w =
     (case checkProfileAndLimit clk k w of
        Inl r \<Rightarrow> r
      | Inr w1 \<Rightarrow>
          (case rebuildWhenEmpty k (getSession k w1) of
             Inl r \<Rightarrow> r
           | Inr w2 \<Rightarrow>
               (let w3 = lastResortRebuild k w2
                in if queueEmpty (queue (sessionOf w2 k)) \<and> queueEmpty (queue (sessionOf w3 k))
                   then showCandidate clk k w3
                   else
                     (case queue (sessionOf w3 k) of
                        None \<Rightarrow> (Inl TypeError, w3)
                      | Some [] \<Rightarrow> showCandidate clk k (setQueue k (buildCandidateQueue k True w3))
                      | Some (target # rest) \<Rightarrow>
                          (let w4 = updSession k (\<lambda>s. s\<lparr>queue := Some rest\<rparr>) w3
                           in if uid target = 0
                              then showCandidate clk k (setQueue k (buildCandidateQueue k True w4))
                              else (Inr [ShowProfile target], markShown k (uid target) w4))))))"
  by pat_completeness auto
termination
proof (relation "measure (\<lambda>(clk, k, w). invalidTargets w k)", goal_cases)
  case 1
  show ?case by simp
next
  case (2 clk k w w1 w2 w3)
  then show ?case
    using rebuildWhenEmpty_Inr[of k "getSession k w1" w2] by simp
next
  case (3 clk k w w1 w2 w3 q)
  then show ?case
    using rebuildWhenEmpty_Inr[of k "getSession k w1" w2]
    by (auto simp: queueEmpty_def lastResortRebuild_def split: if_splits)
next
  case (4 clk k w w1 w2 w3 q target rest w4)
  from 4 rebuildWhenEmpty_Inr[of k "getSession k w1" w2]
  have "w3 = w2" "w2 = getSession k w1 \<or> invalidTargets w2 k = 0"
    by (auto simp: lastResortRebuild_def split: if_splits)
  moreover from 4 have "sessionOf w1 k = sessionOf w k"
    by (auto simp: checkProfileAndLimit_def Let_def split_beta
             split: sum.splits option.splits if_splits)
  ultimately have "0 < invalidTargets w k"
    using 4 by (auto simp: invalidTargets_def)
  then show ?case by (simp add: invalidTargets_build)
qed

declare showCandidate.simps [simp del]


section \<open>Candidate presentation\<close>

definition currentPreferenceOf :: "profile \<Rightarrow> string" where
  "currentPreferenceOf me = (if looking me = [] then ''men'' else looking me)"

definition resetOnPreferenceChange :: "profile \<Rightarrow> int \<Rightarrow> world \<Rightarrow> world" where
  "resetOnPreferenceChange me k w =
     (if lastPreference (sessionOf w k) \<noteq> Some (currentPreferenceOf me)
      then updSession k (\<lambda>s. s\<lparr>shown := [], queue := None,
                                 lastPreference := Some (currentPreferenceOf me)\<rparr>) w
      else w)"

definition firstBuild :: "int \<Rightarrow> world \<Rightarrow> world" where
  "firstBuild k w =
     (if queueEmpty (queue (sessionOf w k))
      then (let w1 = setQueue k (buildCandidateQueue k True w)
            in if queueEmpty (queue (sessionOf w1 k))
               then setQueue k (buildCandidateQueue k True (updSession k (\<lambda>s. s\<lparr>shown := []\<rparr>) w1))
               else w1)
      else w)"

definition retryBuild :: "int \<Rightarrow> world \<Rightarrow> world" where
  "retryBuild k w =
     (if queueEmpty (queue (sessionOf w k))
      then (let w1 = setQueue k (buildCandidateQueue k True (updSession k (\<lambda>s. s\<lparr>shown := []\<rparr>) w))
            in if queueEmpty (queue (sessionOf w1 k))
               then setQueue k (buildCandidateQueue k False w1)
               else w1)
      else w)"

definition showNext :: "clock \<Rightarrow> int \<Rightarrow> world \<Rightarrow> (error + reply list) \<times> world" where
  "showNext clk k w =
     (let users = loadDB (db w) in
      case map_of users k of
        None \<Rightarrow> (Inr [CreateProfileFirst], w)
      | Some me \<Rightarrow>
          (let w1 = firstBuild k (resetOnPreferenceChange me k (getSession k w));
               totalUsers = length users
           in if totalUsers \<le> 1 then (Inr [NoOtherPeople], w1)
              else
                (let w2 = retryBuild k w1
                 in if queueEmpty (queue (sessionOf w2 k)) then (Inr [NoNewPeople], w2)
                    else
                      (let (availableSwipes, d1) = getAvailableSwipes clk k (db w2);
                           w3 = w2\<lparr>db := d1\<rparr>
                       in if total availableSwipes \<le> 0 then (Inr [PurchaseOffer], w3)
                          else showCandidate clk k w3))))"

section \<open>Button actions\<close>

definition clearMessageStep :: "int \<Rightarrow> world \<Rightarrow> world" where
  "clearMessageStep k w =
     (case step (sessionOf w k) of
        Some (WaitingMessage t) \<Rightarrow> updSession k (\<lambda>s. s\<lparr>step := None, messageTargetId := None\<rparr>) w
      | _ \<Rightarrow> w)"

text \<open>The end of the skip handler: \<open>showCandidate\<close> in a \<open>try\<close>, and in the
  \<open>catch\<close> a rebuild of the queue and a second \<open>showCandidate\<close>.\<close>

definition showOrRebuild :: "clock \<Rightarrow> int \<Rightarrow> world \<Rightarrow> (error + reply list) \<times> world" where
  "showOrRebuild clk k w =
     (case showCandidate clk k w of
        (Inl e, w1) \<Rightarrow>
          (let w2 = setQueue k (buildCandidateQueue k True w1)
           in if \<not> queueEmpty (queue (sessionOf w2 k))
              then showCandidate clk k w2
              else (Inr [], w2))
      | (Inr r, w1) \<Rightarrow> (Inr r, w1))"

text \<open>The skip handler does not read the identifier in its button data.\<close>

definition skipAction :: "clock \<Rightarrow> int \<Rightarrow> world \<Rightarrow> (error + reply list) \<times> world" where
  "skipAction clk k w =
     (case findOne (db w) k of
        Inl e \<Rightarrow> (Inl e, w)
      | Inr None \<Rightarrow> (Inr [LostProfile], w)
      | Inr (Some user) \<Rightarrow>
          (let (availableSwipes, d1) = getAvailableSwipes clk k (db w)
           in if total availableSwipes \<le> 0 then (Inr [PurchaseOffer], w\<lparr>db := d1\<rparr>)
              else
                (case (if purchasedSwipes user > 0
                       then updateOne d1 k (\<lambda>u. u\<lparr>purchasedSwipes := purchasedSwipes u - 1\<rparr>)
                       else Inr (snd (incrementDailySwipes clk k d1))) of
                   Inl e \<Rightarrow> (Inl e, w\<lparr>db := d1\<rparr>)
                 | Inr d2 \<Rightarrow>
                     showOrRebuild clk k (clearMessageStep k (getSession k (w\<lparr>db := d2\<rparr>))))))"

definition messageAction :: "clock \<Rightarrow> int \<Rightarrow> int \<Rightarrow> world \<Rightarrow> (error + reply list) \<times> world" where
  "messageAction clk k targetId w =
     (case findOne (db w) k of
        Inl e \<Rightarrow> (Inl e, w)
      | Inr None \<Rightarrow> (Inr [LostProfile], w)
      | Inr (Some userExists) \<Rightarrow>
          (let (availableSwipes, d1) = getAvailableSwipes clk k (db w);
               w1 = w\<lparr>db := d1\<rparr>
           in if total availableSwipes \<le> 0 then (Inr [PurchaseOffer], w1)
              else
                (case findOne d1 targetId of
                   Inl e \<Rightarrow> (Inl e, w1)
                 | Inr None \<Rightarrow> showCandidate clk k w1
                 | Inr (Some targetUser) \<Rightarrow>
                     (Inr [AskMessage targetId],
                      updSession k (\<lambda>s. s\<lparr>step := Some (WaitingMessage targetId),
                                             messageTargetId := Some targetId\<rparr>) w1))))"

text \<open>
  The like and message handlers work on the objects of the loaded snapshot:
  \<open>me\<close> is the object under the acting user's key and \<open>them\<close> the object under
  the target's key, and they are one object when the two keys are equal. The
  snapshot is a map from keys to objects, and a mutation goes through the key.
\<close>

definition modify :: "int \<Rightarrow> (profile \<Rightarrow> profile) \<Rightarrow> (int \<rightharpoonup> profile) \<Rightarrow> (int \<rightharpoonup> profile)" where
  "modify j f m = (case m j of None \<Rightarrow> m | Some p \<Rightarrow> m(j \<mapsto> f p))"

definition pushUnique :: "int \<Rightarrow> int list \<Rightarrow> int list" where
  "pushUnique x xs = (if x \<in> set xs then xs else xs @ [x])"

definition pushMostRecent :: "int \<Rightarrow> int list \<Rightarrow> int list" where
  "pushMostRecent x xs = filter (\<lambda>i. i \<noteq> x) xs @ [x]"

text \<open>The objects after the like is recorded: the like, then the match or the
  recent like.\<close>

definition recordLike :: "int \<Rightarrow> int \<Rightarrow> (int \<rightharpoonup> profile) \<Rightarrow> bool \<times> (int \<rightharpoonup> profile)" where
  "recordLike k targetId m =
     (let m1 = modify k (\<lambda>p. p\<lparr>likes := pushUnique targetId (likes p)\<rparr>) m;
          matchFound = (case m1 targetId of None \<Rightarrow> False | Some them \<Rightarrow> k \<in> set (likes them))
      in if matchFound
         then (True, modify targetId (\<lambda>p. p\<lparr>matches := pushUnique k (matches p)\<rparr>)
                       (modify k (\<lambda>p. p\<lparr>matches := pushUnique targetId (matches p)\<rparr>) m1))
         else (False, modify targetId (\<lambda>p. p\<lparr>recentLikes := pushMostRecent k (recentLikes p)\<rparr>) m1))"

definition resumeAfterLike :: "clock \<Rightarrow> int \<Rightarrow> reply list \<Rightarrow> world \<Rightarrow> (error + reply list) \<times> world" where
  "resumeAfterLike clk k said w =
     (let w1 = setQueue k (buildCandidateQueue k True w)
      in if \<not> queueEmpty (queue (sessionOf w1 k))
         then (case showCandidate clk k w1 of
                 (Inl e, w2) \<Rightarrow> (Inr said, w2)
               | (Inr r, w2) \<Rightarrow> (Inr (said @ r), w2))
         else (Inr said, w1))"

definition likeAction :: "clock \<Rightarrow> int \<Rightarrow> int \<Rightarrow> world \<Rightarrow> (error + reply list) \<times> world" where
  "likeAction clk k targetId w =
     (let users = map_of (loadDB (db w)) in
      case users k of
        None \<Rightarrow> (Inr [LostProfile], w)
      | Some me \<Rightarrow>
          (case users targetId of
             None \<Rightarrow>
               (let w1 = setQueue k (buildCandidateQueue k True (getSession k w))
                in if \<not> queueEmpty (queue (sessionOf w1 k))
                   then showCandidate clk k w1
                   else (Inr [], w1))
           | Some them \<Rightarrow>
               (let (availableSwipes, d1) = getAvailableSwipes clk k (db w)
                in if total availableSwipes \<le> 0 then (Inr [PurchaseOffer], w\<lparr>db := d1\<rparr>)
                   else
                     (let updatedPurchasedSwipes =
                            (if purchasedSwipes me > 0 then purchasedSwipes me - 1 else purchasedSwipes me);
                          d2 = (if purchasedSwipes me > 0 then d1
                                else snd (incrementDailySwipes clk k d1));
                          (matchFound, users') = recordLike k targetId users
                      in case (users' k, users' targetId) of
                           (Some me', Some them') \<Rightarrow>
                             (let d3 = updateUserArrays k
                                         (\<lambda>u. u\<lparr>likes := likes me', matches := matches me',
                                                purchasedSwipes := updatedPurchasedSwipes\<rparr>) d2;
                                  d4 = updateUserArrays targetId
                                         (\<lambda>u. u\<lparr>likes := likes them', matches := matches them',
                                                recentLikes := recentLikes them'\<rparr>) d3;
                                  w1 = clearMessageStep k (getSession k (w\<lparr>db := d4\<rparr>))
                              in resumeAfterLike clk k
                                   (if matchFound then [NotifyMatch targetId, Matched targetId]
                                    else [NotifyLike targetId]) w1)
                         | _ \<Rightarrow> (Inl TypeError, w\<lparr>db := d2\<rparr>)))))"


section \<open>Text messages and the delete command\<close>

definition startsWith :: "string \<Rightarrow> string \<Rightarrow> bool" where
  "startsWith p s = (take (length p) s = p)"

definition isSpace :: "char \<Rightarrow> bool" where
  "isSpace c = (c \<in> set [CHR '' '', CHR 0x09, CHR 0x0A, CHR 0x0B, CHR 0x0C, CHR 0x0D])"

definition trim :: "string \<Rightarrow> string" where
  "trim s = rev (dropWhile isSpace (rev (dropWhile isSpace s)))"

definition deleteCommand :: "int \<Rightarrow> world \<Rightarrow> (error + reply list) \<times> world" where
  "deleteCommand k w =
     (case map_of (loadDB (db w)) k of
        None \<Rightarrow> (Inr [NoProfileToDelete], w)
      | Some user \<Rightarrow>
          (Inr [AskDeletionReason],
           updSession k (\<lambda>s. s\<lparr>waitingForDeletionReason := True\<rparr>) w))"

text \<open>The rewrite of another user's three arrays during the purge: computed from
  the document as it was read, written with \<open>$set\<close>.\<close>

definition purgeFrom :: "int \<Rightarrow> profile \<Rightarrow> profile \<Rightarrow> profile" where
  "purgeFrom x otherUser u =
     u\<lparr>likes := filter (\<lambda>i. i \<noteq> x) (likes otherUser),
       matches := filter (\<lambda>i. i \<noteq> x) (matches otherUser),
       recentLikes := filter (\<lambda>i. i \<noteq> x) (recentLikes otherUser)\<rparr>"

definition purgeAll :: "int \<Rightarrow> profile list \<Rightarrow> database \<Rightarrow> database" where
  "purgeAll x allUsers d =
     fold (\<lambda>otherUser d'. if uid otherUser = x then d'
                           else updateUserArrays (uid otherUser) (purgeFrom x otherUser) d')
          allUsers d"

definition deletionReasonStep :: "clock \<Rightarrow> int \<Rightarrow> string \<Rightarrow> world \<Rightarrow> (error + reply list) \<times> world" where
  "deletionReasonStep clk k txt w =
     (case map_of (loadDB (db w)) k of
        None \<Rightarrow>
          (Inr [NoProfileToDelete],
           updSession k (\<lambda>s. s\<lparr>waitingForDeletionReason := False\<rparr>) w)
      | Some user \<Rightarrow>
          (let d1 = saveDeletionReason \<lparr>userId = k, reason = trim txt, timestamp = now clk\<rparr> (db w)
           in case findAll d1 of
                Inl e \<Rightarrow> (Inl e, w\<lparr>db := d1\<rparr>)
              | Inr allUsers \<Rightarrow>
                  (Inr [AccountDeleted],
                   \<lparr>db = deleteUser k (purgeAll k allUsers d1),
                    sessions = (sessions w)(k := None)\<rparr>)))"

text \<open>The end of the message branch: nothing more when the limit is reached,
  else a rebuilt queue and \<open>showCandidate\<close> in a \<open>try\<close>.\<close>

definition resumeAfterMessage ::
    "clock \<Rightarrow> int \<Rightarrow> reply list \<Rightarrow> swipes \<Rightarrow> world \<Rightarrow> (error + reply list) \<times> world" where
  "resumeAfterMessage clk k said availableSwipes w =
     (if total availableSwipes \<le> 0 then (Inr said, w)
      else
        (case showCandidate clk k (setQueue k (buildCandidateQueue k True w)) of
           (Inl e, w1) \<Rightarrow> (Inr said, w1)
         | (Inr r, w1) \<Rightarrow> (Inr (said @ r), w1)))"

definition sendMessageStep :: "clock \<Rightarrow> int \<Rightarrow> string \<Rightarrow> world \<Rightarrow> (error + reply list) \<times> world" where
  "sendMessageStep clk k txt w =
     (case messageTargetId (sessionOf w k) of
        None \<Rightarrow> (Inr [], updSession k (\<lambda>s. s\<lparr>step := None\<rparr>) w)
      | Some targetId \<Rightarrow>
          if targetId = 0 then (Inr [], updSession k (\<lambda>s. s\<lparr>step := None\<rparr>) w)
          else
            (let users = map_of (loadDB (db w)) in
             case users k of
               None \<Rightarrow> (Inr [LostProfile], updSession k (\<lambda>s. s\<lparr>step := None\<rparr>) w)
             | Some me \<Rightarrow>
                 (case users targetId of
                    None \<Rightarrow>
                      (case showCandidate clk k (updSession k (\<lambda>s. s\<lparr>step := None\<rparr>) w) of
                         (Inl e, w1) \<Rightarrow> (Inr [UserNotFound], w1)
                       | (Inr r, w1) \<Rightarrow> (Inr (UserNotFound # r), w1))
                  | Some targetUser \<Rightarrow>
                      (let (matchFound, users') = recordLike k targetId users;
                           (availableSwipes, d1) = getAvailableSwipes clk k (db w)
                       in case (users' k, users' targetId) of
                            (Some me', Some them') \<Rightarrow>
                              (let d2 = updateUserArrays k
                                          (\<lambda>u. u\<lparr>likes := likes me', matches := matches me'\<rparr>) d1;
                                   d3 = (if matchFound
                                         then updateUserArrays targetId
                                                (\<lambda>u. u\<lparr>likes := likes them', matches := matches them'\<rparr>) d2
                                         else updateUserArrays targetId
                                                (\<lambda>u. u\<lparr>likes := likes them',
                                                       recentLikes := recentLikes them'\<rparr>) d2);
                                   w1 = updSession k (\<lambda>s. s\<lparr>step := None, messageTargetId := None\<rparr>)
                                          (w\<lparr>db := d3\<rparr>);
                                   said = (if matchFound then [NotifyMatch targetId] else [NotifyLike targetId])
                                          @ [ForwardMessage targetId txt, MessageSent targetId]
                               in resumeAfterMessage clk k said availableSwipes w1)
                          | _ \<Rightarrow> (Inl TypeError, w)))))"

definition onText :: "clock \<Rightarrow> int \<Rightarrow> string \<Rightarrow> world \<Rightarrow> (error + reply list) \<times> world" where
  "onText clk k txt w =
     (let w0 = getSession k w in
      if startsWith ''/'' txt then (Inr [PassToCommands], w0)
      else if waitingForDeletionReason (sessionOf w0 k) then deletionReasonStep clk k txt w0
      else
        (case step (sessionOf w0 k) of
           None \<Rightarrow> (Inr [], w0)
         | Some (Dialogue tag) \<Rightarrow> (Inr [], w0)
         | Some (WaitingMessage t) \<Rightarrow> sendMessageStep clk k txt w0))"

section \<open>Properties of the rate limiter\<close>

definition onDay :: "int \<Rightarrow> int \<Rightarrow> profile \<Rightarrow> bool" where
  "onDay tz D p = (case lastSwipeReset p of None \<Rightarrow> False | Some t \<Rightarrow> t \<noteq> 0 \<and> startOfDay tz t = D)"

definition usedToday :: "int \<Rightarrow> int \<Rightarrow> profile \<Rightarrow> int" where
  "usedToday tz D p = (if onDay tz D p then dailySwipes p else 0)"

lemma startOfDay_idem: "startOfDay tz (startOfDay tz t) = startOfDay tz t"
  by (simp add: startOfDay_def algebra_simps mod_simps)

lemma find_updateFirst:
  assumes "\<And>u. uid (f u) = uid u"
  shows "find (\<lambda>u. uid u = j) (updateFirst k f us) =
         (if j = k then map_option f (find (\<lambda>u. uid u = k) us) else find (\<lambda>u. uid u = j) us)"
  by (induction us) (auto simp: assms)

lemma checkAndReset_today:
  assumes "reachable d" "find (\<lambda>u. uid u = k) (usersCollection d) = Some p"
    "onDay (tzOffset clk) (startOfDay (tzOffset clk) (now clk)) p"
  shows "checkAndResetDailySwipes clk k d = (dailySwipes p, d)"
  using assms by (auto simp: checkAndResetDailySwipes_def findOne_def onDay_def Let_def split: option.splits)

lemma checkAndReset_stale:
  assumes "reachable d" "find (\<lambda>u. uid u = k) (usersCollection d) = Some p"
    "\<not> onDay (tzOffset clk) (startOfDay (tzOffset clk) (now clk)) p"
  shows "checkAndResetDailySwipes clk k d =
      (0, d\<lparr>usersCollection := updateFirst k (\<lambda>u. u\<lparr>dailySwipes := 0, lastSwipeReset := Some (startOfDay (tzOffset clk) (now clk))\<rparr>) (usersCollection d)\<rparr>)"
  using assms by (auto simp: checkAndResetDailySwipes_def findOne_def updateOne_def onDay_def Let_def split: option.splits)

lemma increment_usedToday:
  assumes r: "reachable d" and f: "find (\<lambda>u. uid u = k) (usersCollection d) = Some p"
    and D: "startOfDay (tzOffset clk) (now clk) = D" "D \<noteq> 0"
  shows "\<exists>p'. find (\<lambda>u. uid u = k) (usersCollection (snd (incrementDailySwipes clk k d))) = Some p'
          \<and> onDay (tzOffset clk) D p' \<and> dailySwipes p' = usedToday (tzOffset clk) D p + 1
          \<and> purchasedSwipes p' = purchasedSwipes p
          \<and> reachable (snd (incrementDailySwipes clk k d))
          \<and> fst (incrementDailySwipes clk k d) = usedToday (tzOffset clk) D p + 1"
proof (cases "onDay (tzOffset clk) D p")
  case True
  then show ?thesis
    using r f D checkAndReset_today[of d k p clk]
    by (simp add: incrementDailySwipes_def updateOne_def findOne_def find_updateFirst usedToday_def onDay_def)
next
  case False
  then show ?thesis
    using r f D checkAndReset_stale[of d k p clk] startOfDay_idem[of "tzOffset clk" "now clk"]
    by (simp add: incrementDailySwipes_def updateOne_def findOne_def find_updateFirst usedToday_def onDay_def)
qed

lemma getAvailableSwipes_usedToday:
  assumes r: "reachable d" and f: "find (\<lambda>u. uid u = k) (usersCollection d) = Some p"
    and D: "startOfDay (tzOffset clk) (now clk) = D"
  shows "fst (getAvailableSwipes clk k d) =
           \<lparr>free = max 0 (20 - usedToday (tzOffset clk) D p), purchased = purchasedSwipes p,
            total = max 0 (20 - usedToday (tzOffset clk) D p) + purchasedSwipes p\<rparr>"
proof (cases "onDay (tzOffset clk) D p")
  case True
  then show ?thesis
    using r f D checkAndReset_today[of d k p clk]
    by (simp add: getAvailableSwipes_def findOne_def usedToday_def Let_def)
next
  case False
  then show ?thesis
    using r f D checkAndReset_stale[of d k p clk]
    by (simp add: getAvailableSwipes_def findOne_def usedToday_def Let_def)
qed

definition consumeFreeSwipes :: "int \<Rightarrow> int \<Rightarrow> int list \<Rightarrow> database \<Rightarrow> database" where
  "consumeFreeSwipes tz k ts d = fold (\<lambda>t d'. snd (incrementDailySwipes \<lparr>now = t, tzOffset = tz\<rparr> k d')) ts d"

lemma consumeFreeSwipes_usedToday:
  assumes "reachable d" "find (\<lambda>u. uid u = k) (usersCollection d) = Some p"
    "\<forall>t\<in>set ts. startOfDay tz t = D" "D \<noteq> 0"
  shows "\<exists>p'. find (\<lambda>u. uid u = k) (usersCollection (consumeFreeSwipes tz k ts d)) = Some p'
          \<and> usedToday tz D p' = usedToday tz D p + int (length ts)
          \<and> (ts \<noteq> [] \<longrightarrow> onDay tz D p')
          \<and> purchasedSwipes p' = purchasedSwipes p
          \<and> reachable (consumeFreeSwipes tz k ts d)"
  using assms
proof (induction ts arbitrary: d p)
  case Nil
  then show ?case by (simp add: consumeFreeSwipes_def)
next
  case (Cons t ts)
  let ?clk = "\<lparr>now = t, tzOffset = tz\<rparr>"
  let ?d1 = "snd (incrementDailySwipes ?clk k d)"
  from Cons.prems increment_usedToday[of d k p ?clk D]
  obtain p1 where p1: "find (\<lambda>u. uid u = k) (usersCollection ?d1) = Some p1"
     "onDay tz D p1" "dailySwipes p1 = usedToday tz D p + 1" "purchasedSwipes p1 = purchasedSwipes p"
     "reachable ?d1"
    by auto
  from Cons.IH[OF p1(5) p1(1)] Cons.prems
  obtain p' where p': "find (\<lambda>u. uid u = k) (usersCollection (consumeFreeSwipes tz k ts ?d1)) = Some p'"
     "usedToday tz D p' = usedToday tz D p1 + int (length ts)"
     "ts \<noteq> [] \<longrightarrow> onDay tz D p'"
     "purchasedSwipes p' = purchasedSwipes p1" "reachable (consumeFreeSwipes tz k ts ?d1)"
    by auto
  have c: "consumeFreeSwipes tz k (t # ts) d = consumeFreeSwipes tz k ts ?d1"
    by (simp add: consumeFreeSwipes_def)
  have od: "onDay tz D p'"
  proof (cases "ts = []")
    case True
    then show ?thesis using p1 p' by (simp add: consumeFreeSwipes_def)
  next
    case False
    then show ?thesis using p' by simp
  qed
  show ?case
    unfolding c using p' p1 od by (simp add: usedToday_def)
qed

text \<open>
  C3. For a user with a profile and no purchased credits, \<open>getAvailableSwipes\<close>
  reports \<open>free = max(0, 20 - dailySwipes)\<close>, the counter being the one of the
  current day (\<open>usedToday\<close>: zero when the last reset is of another day), and
  \<open>total = free + purchased\<close>. After exactly 20 consumptions on one calendar day
  \<open>D\<close>, starting from a counter of zero for that day, the total is 0. The first
  consumption on another day \<open>D2\<close> first zeroes the counter and sets the reset
  timestamp to the start of \<open>D2\<close>, and leaves a total of 19. A day whose local
  midnight is the timestamp 0 is excluded: the source reads the timestamp 0 as no
  timestamp.
\<close>

theorem rate_limit_boundary:
  assumes r: "reachable d"
    and f: "find (\<lambda>u. uid u = k) (usersCollection d) = Some p"
    and pz: "purchasedSwipes p = 0"
    and fresh: "usedToday tz D p = 0"
    and ts: "length ts = 20" "\<forall>t\<in>set ts. startOfDay tz t = D" "D \<noteq> 0"
    and t1: "startOfDay tz t1 = D"
    and t2: "startOfDay tz t2 = D2" "D2 \<noteq> D" "D2 \<noteq> 0"
    and t3: "startOfDay tz t3 = D2"
  shows "fst (getAvailableSwipes \<lparr>now = t0, tzOffset = tz\<rparr> k d) =
           \<lparr>free = max 0 (20 - usedToday tz (startOfDay tz t0) p), purchased = purchasedSwipes p,
            total = max 0 (20 - usedToday tz (startOfDay tz t0) p) + purchasedSwipes p\<rparr>
       \<and> total (fst (getAvailableSwipes \<lparr>now = t1, tzOffset = tz\<rparr> k (consumeFreeSwipes tz k ts d))) = 0
       \<and> (\<exists>q. find (\<lambda>u. uid u = k)
                 (usersCollection (snd (checkAndResetDailySwipes \<lparr>now = t2, tzOffset = tz\<rparr> k
                    (consumeFreeSwipes tz k ts d)))) = Some q
              \<and> dailySwipes q = 0 \<and> lastSwipeReset q = Some D2)
       \<and> total (fst (getAvailableSwipes \<lparr>now = t3, tzOffset = tz\<rparr> k
             (snd (incrementDailySwipes \<lparr>now = t2, tzOffset = tz\<rparr> k (consumeFreeSwipes tz k ts d))))) = 19"
proof -
  let ?d20 = "consumeFreeSwipes tz k ts d"
  have a: "fst (getAvailableSwipes \<lparr>now = t0, tzOffset = tz\<rparr> k d) =
           \<lparr>free = max 0 (20 - usedToday tz (startOfDay tz t0) p), purchased = purchasedSwipes p,
            total = max 0 (20 - usedToday tz (startOfDay tz t0) p) + purchasedSwipes p\<rparr>"
    using getAvailableSwipes_usedToday[OF r f, of "\<lparr>now = t0, tzOffset = tz\<rparr>" "startOfDay tz t0"] pz
    by simp
  from consumeFreeSwipes_usedToday[OF r f ts(2) ts(3)] ts(1) fresh pz
  obtain p20 where p20: "find (\<lambda>u. uid u = k) (usersCollection ?d20) = Some p20"
      "usedToday tz D p20 = 20" "onDay tz D p20" "purchasedSwipes p20 = 0" "reachable ?d20"
    by auto
  have b: "total (fst (getAvailableSwipes \<lparr>now = t1, tzOffset = tz\<rparr> k ?d20)) = 0"
    using getAvailableSwipes_usedToday[OF p20(5) p20(1), of "\<lparr>now = t1, tzOffset = tz\<rparr>" D] t1 p20
    by simp
  have stale: "\<not> onDay tz D2 p20"
    using p20(3) t2(2) by (auto simp: onDay_def split: option.splits)
  have c: "\<exists>q. find (\<lambda>u. uid u = k)
                 (usersCollection (snd (checkAndResetDailySwipes \<lparr>now = t2, tzOffset = tz\<rparr> k ?d20))) = Some q
              \<and> dailySwipes q = 0 \<and> lastSwipeReset q = Some D2"
    using checkAndReset_stale[OF p20(5) p20(1), of "\<lparr>now = t2, tzOffset = tz\<rparr>"] stale t2 p20(1)
    by (simp add: find_updateFirst)
  from increment_usedToday[OF p20(5) p20(1), of "\<lparr>now = t2, tzOffset = tz\<rparr>" D2] t2 stale
  obtain p21 where p21: "find (\<lambda>u. uid u = k)
        (usersCollection (snd (incrementDailySwipes \<lparr>now = t2, tzOffset = tz\<rparr> k ?d20))) = Some p21"
      "onDay tz D2 p21" "dailySwipes p21 = 1" "purchasedSwipes p21 = 0"
      "reachable (snd (incrementDailySwipes \<lparr>now = t2, tzOffset = tz\<rparr> k ?d20))"
    using p20(4) by (auto simp: usedToday_def)
  have e: "total (fst (getAvailableSwipes \<lparr>now = t3, tzOffset = tz\<rparr> k
             (snd (incrementDailySwipes \<lparr>now = t2, tzOffset = tz\<rparr> k ?d20)))) = 19"
    using getAvailableSwipes_usedToday[OF p21(5) p21(1), of "\<lparr>now = t3, tzOffset = tz\<rparr>" D2] t3 p21
    by (simp add: usedToday_def)
  from a b c e show ?thesis by blast
qed

theorem rate_limit_boundary_witness:
  "total (fst (getAvailableSwipes \<lparr>now = 86400500, tzOffset = 0\<rparr> 1
       \<lparr>usersCollection = [\<lparr>uid = 1, name = ''Ann'', gender = ''female'', looking = ''men'',
            likes = [], matches = [], recentLikes = [], dailySwipes = 7,
            lastSwipeReset = Some 5, purchasedSwipes = 0\<rparr>],
         deletionReasonsCollection = [], reachable = True\<rparr>)) = 20
   \<and> total (fst (getAvailableSwipes \<lparr>now = 86400000 + 50000, tzOffset = 0\<rparr> 1
        (consumeFreeSwipes 0 1 (map (\<lambda>i. 86400000 + 1000 * i) [1..20])
          \<lparr>usersCollection = [\<lparr>uid = 1, name = ''Ann'', gender = ''female'', looking = ''men'',
              likes = [], matches = [], recentLikes = [], dailySwipes = 7,
              lastSwipeReset = Some 5, purchasedSwipes = 0\<rparr>],
           deletionReasonsCollection = [], reachable = True\<rparr>))) = 0
   \<and> total (fst (getAvailableSwipes \<lparr>now = 172800000 + 9000, tzOffset = 0\<rparr> 1
        (snd (incrementDailySwipes \<lparr>now = 172800000 + 7, tzOffset = 0\<rparr> 1
          (consumeFreeSwipes 0 1 (map (\<lambda>i. 86400000 + 1000 * i) [1..20])
            \<lparr>usersCollection = [\<lparr>uid = 1, name = ''Ann'', gender = ''female'', looking = ''men'',
                likes = [], matches = [], recentLikes = [], dailySwipes = 7,
                lastSwipeReset = Some 5, purchasedSwipes = 0\<rparr>],
             deletionReasonsCollection = [], reachable = True\<rparr>))))) = 19"
proof -
  let ?p = "\<lparr>uid = 1, name = ''Ann'', gender = ''female'', looking = ''men'',
            likes = [], matches = [], recentLikes = [], dailySwipes = 7,
            lastSwipeReset = Some 5, purchasedSwipes = 0\<rparr>"
  let ?d = "\<lparr>usersCollection = [?p], deletionReasonsCollection = [], reachable = True\<rparr>"
  let ?ts = "map (\<lambda>i. 86400000 + 1000 * i) [1..20] :: int list"
  have h1: "reachable ?d" by simp
  have h2: "find (\<lambda>u. uid u = 1) (usersCollection ?d) = Some ?p" by simp
  have h3: "purchasedSwipes ?p = 0" by simp
  have h4: "usedToday 0 86400000 ?p = 0" by (simp add: usedToday_def onDay_def startOfDay_def)
  have h5: "length ?ts = 20" by simp
  have h6: "\<forall>t\<in>set ?ts. startOfDay 0 t = 86400000" by (auto simp: startOfDay_def)
  have h7: "(86400000::int) \<noteq> 0" by simp
  have h8: "startOfDay 0 (86400000 + 50000) = 86400000" by (simp add: startOfDay_def)
  have h9: "startOfDay 0 (172800000 + 7) = 172800000" by (simp add: startOfDay_def)
  have h10: "(172800000::int) \<noteq> 86400000" "(172800000::int) \<noteq> 0" by simp_all
  have h11: "startOfDay 0 (172800000 + 9000) = 172800000" by (simp add: startOfDay_def)
  have u: "usedToday 0 (startOfDay 0 86400500) ?p = 0" by (simp add: usedToday_def onDay_def startOfDay_def)
  show ?thesis
    using rate_limit_boundary[OF h1 h2 h3 h4 h5 h6 h7 h8 h9 h10 h11, of 86400500] u
    by simp
qed

lemma findOne_unreachable: "\<not> reachable d \<Longrightarrow> findOne d k = Inl StorageError"
  by (simp add: findOne_def)

text \<open>
  C10. A user identifier with no stored profile gets \<open>{free: 0, purchased: 0,
  total: 0}\<close> from \<open>getAvailableSwipes\<close>, not the daily allowance of 20, and so
  does any identifier when the storage read fails; the database is left as it was.
\<close>

theorem getAvailableSwipes_no_profile:
  "(find (\<lambda>u. uid u = k) (usersCollection d) = None \<or> \<not> reachable d) \<longrightarrow>
     getAvailableSwipes clk k d = (\<lparr>free = 0, purchased = 0, total = 0\<rparr>, d)"
  by (auto simp: getAvailableSwipes_def findOne_def noSwipes_def)

theorem getAvailableSwipes_no_profile_witness:
  "find (\<lambda>u. uid u = 7)
     (usersCollection
        \<lparr>usersCollection =
           [\<lparr>uid = 1, name = ''Ann'', gender = ''female'', looking = ''men'',
             likes = [], matches = [], recentLikes = [], dailySwipes = 0,
             lastSwipeReset = Some 86400000, purchasedSwipes = 0\<rparr>],
         deletionReasonsCollection = [], reachable = True\<rparr>) = None
   \<and> getAvailableSwipes \<lparr>now = 86400000 + 500, tzOffset = 0\<rparr> 7
        \<lparr>usersCollection =
           [\<lparr>uid = 1, name = ''Ann'', gender = ''female'', looking = ''men'',
             likes = [], matches = [], recentLikes = [], dailySwipes = 0,
             lastSwipeReset = Some 86400000, purchasedSwipes = 0\<rparr>],
         deletionReasonsCollection = [], reachable = True\<rparr>
      = (\<lparr>free = 0, purchased = 0, total = 0\<rparr>,
         \<lparr>usersCollection =
           [\<lparr>uid = 1, name = ''Ann'', gender = ''female'', looking = ''men'',
             likes = [], matches = [], recentLikes = [], dailySwipes = 0,
             lastSwipeReset = Some 86400000, purchasedSwipes = 0\<rparr>],
          deletionReasonsCollection = [], reachable = True\<rparr>)"
  using getAvailableSwipes_no_profile
    [of 7 "\<lparr>usersCollection =
           [\<lparr>uid = 1, name = ''Ann'', gender = ''female'', looking = ''men'',
             likes = [], matches = [], recentLikes = [], dailySwipes = 0,
             lastSwipeReset = Some 86400000, purchasedSwipes = 0\<rparr>],
          deletionReasonsCollection = [], reachable = True\<rparr>"
        "\<lparr>now = 86400000 + 500, tzOffset = 0\<rparr>"]
  by simp


section \<open>Effect of the presentation on the database\<close>

definition rollOver :: "clock \<Rightarrow> int \<Rightarrow> database \<Rightarrow> database" where
  "rollOver clk k d = snd (checkAndResetDailySwipes clk k d)"

lemma updateFirst_idem:
  assumes "\<And>u. uid (f u) = uid u" "\<And>u. f (f u) = f u"
  shows "updateFirst k f (updateFirst k f us) = updateFirst k f us"
  by (induction us) (auto simp: assms)

lemma snd_getAvailableSwipes: "snd (getAvailableSwipes clk k d) = rollOver clk k d"
  by (auto simp: getAvailableSwipes_def rollOver_def checkAndResetDailySwipes_def Let_def split_beta
           split: sum.splits option.splits)

lemma rollOver_cases:
  "rollOver clk k d = d \<or>
   (reachable d \<and> rollOver clk k d =
      d\<lparr>usersCollection := updateFirst k
          (\<lambda>u. u\<lparr>dailySwipes := 0, lastSwipeReset := Some (startOfDay (tzOffset clk) (now clk))\<rparr>)
          (usersCollection d)\<rparr>)"
  by (auto simp: rollOver_def checkAndResetDailySwipes_def findOne_def updateOne_def Let_def
           split: option.splits)

lemma rollOver_idem [simp]: "rollOver clk k (rollOver clk k d) = rollOver clk k d"
proof -
  let ?f = "\<lambda>u. u\<lparr>dailySwipes := 0, lastSwipeReset := Some (startOfDay (tzOffset clk) (now clk))\<rparr>"
  let ?d' = "d\<lparr>usersCollection := updateFirst k ?f (usersCollection d)\<rparr>"
  have i: "updateFirst k ?f (updateFirst k ?f (usersCollection d)) = updateFirst k ?f (usersCollection d)"
    by (rule updateFirst_idem) simp_all
  have "rollOver clk k ?d' = ?d'"
    using rollOver_cases[of clk k ?d'] i by auto
  then show ?thesis
    using rollOver_cases[of clk k d] by auto
qed

lemma reachable_rollOver [simp]: "reachable (rollOver clk k d) = reachable d"
  using rollOver_cases[of clk k d] by auto

lemma db_setQueue [simp]: "db (setQueue k (buildCandidateQueue k e w)) = db w"
  by (simp add: setQueue_def buildCandidateQueue_db)

lemma db_markShown [simp]: "db (markShown k t w) = db w"
  by (simp add: markShown_def)

lemma db_lastResortRebuild [simp]: "db (lastResortRebuild k w) = db w"
  by (simp add: lastResortRebuild_def)

lemma checkProfileAndLimit_Inr:
  "checkProfileAndLimit clk k w = Inr w1 \<Longrightarrow> w1 = w\<lparr>db := rollOver clk k (db w)\<rparr>"
  by (auto simp: checkProfileAndLimit_def Let_def split_beta snd_getAvailableSwipes[symmetric]
           split: sum.splits option.splits if_splits)

lemma checkProfileAndLimit_Inl:
  "checkProfileAndLimit clk k w = Inl r \<Longrightarrow> snd r = w \<or> snd r = w\<lparr>db := rollOver clk k (db w)\<rparr>"
  by (auto simp: checkProfileAndLimit_def Let_def split_beta snd_getAvailableSwipes[symmetric]
           split: sum.splits option.splits if_splits)

lemma rebuildWhenEmpty_db:
  "rebuildWhenEmpty k w = Inr w' \<Longrightarrow> db w' = db w"
  "rebuildWhenEmpty k w = Inl r \<Longrightarrow> db (snd r) = db w"
  by (auto simp: rebuildWhenEmpty_def Let_def split: sum.splits if_splits)

lemma showCandidate_db:
  "db (snd (showCandidate clk k w)) = db w \<or> db (snd (showCandidate clk k w)) = rollOver clk k (db w)"
proof (induction clk k w rule: showCandidate.induct)
  case (1 clk k w)
  show ?case
  proof (cases "checkProfileAndLimit clk k w")
    case (Inl r)
    then show ?thesis
      using checkProfileAndLimit_Inl[OF Inl] by (subst (1 2) showCandidate.simps) auto
  next
    case (Inr w1)
    note w1 = checkProfileAndLimit_Inr[OF Inr]
    show ?thesis
    proof (cases "rebuildWhenEmpty k (getSession k w1)")
      case (Inl r)
      then show ?thesis
        using Inr rebuildWhenEmpty_db(2)[OF Inl] w1 by (subst (1 2) showCandidate.simps) auto
    next
      case w2: (Inr w2)
      have d2: "db w2 = rollOver clk k (db w)"
        using rebuildWhenEmpty_db(1)[OF w2] w1 by simp
      define w3 where "w3 = lastResortRebuild k w2"
      have d3: "db w3 = rollOver clk k (db w)" using d2 by (simp add: w3_def)
      note IH = "1.IH"[OF Inr w2 w3_def]
      show ?thesis
        using IH d3
        by (subst (1 2) showCandidate.simps)
           (simp add: Inr w2 Let_def w3_def[symmetric] split: option.splits list.splits)
    qed
  qed
qed


section \<open>Skip\<close>

lemma rollOver_today:
  assumes "reachable d" "find (\<lambda>u. uid u = k) (usersCollection d) = Some p"
    "onDay (tzOffset clk) (startOfDay (tzOffset clk) (now clk)) p"
  shows "rollOver clk k d = d"
  using checkAndReset_today[OF assms] by (simp add: rollOver_def)

lemma increment_today:
  assumes "reachable d" "find (\<lambda>u. uid u = k) (usersCollection d) = Some p"
    "onDay (tzOffset clk) (startOfDay (tzOffset clk) (now clk)) p"
  shows "snd (incrementDailySwipes clk k d) =
     d\<lparr>usersCollection := updateFirst k (\<lambda>u. u\<lparr>dailySwipes := dailySwipes u + 1\<rparr>) (usersCollection d)\<rparr>"
  using assms checkAndReset_today[OF assms]
  by (simp add: incrementDailySwipes_def updateOne_def findOne_def find_updateFirst)

lemma showCandidate_db_stable:
  "rollOver clk k (db w) = db w \<Longrightarrow> db (snd (showCandidate clk k w)) = db w"
  using showCandidate_db[of clk k w] by auto

lemma db_clearMessageStep [simp]: "db (clearMessageStep k w) = db w"
  by (simp add: clearMessageStep_def split: option.splits dialogueStep.splits)

lemma showOrRebuild_db_stable:
  assumes "rollOver clk k (db w) = db w"
  shows "db (snd (showOrRebuild clk k w)) = db w"
proof -
  obtain r1 w1 where sc: "showCandidate clk k w = (r1, w1)" by force
  have d1: "db w1 = db w"
    using showCandidate_db_stable[OF assms] by (simp add: sc)
  define w2 where "w2 = setQueue k (buildCandidateQueue k True w1)"
  have d2: "db w2 = db w" by (simp add: w2_def d1)
  have "db (snd (showCandidate clk k w2)) = db w"
    using showCandidate_db_stable[of clk k w2] assms d2 by simp
  then show ?thesis
    using d1 d2 by (cases r1) (simp_all add: showOrRebuild_def sc Let_def w2_def[symmetric])
qed

lemma skipAction_db:
  assumes r: "reachable (db w)" and f: "find (\<lambda>u. uid u = k) (usersCollection (db w)) = Some p"
    and t: "0 < total (fst (getAvailableSwipes clk k (db w)))"
    and d2: "d2 = (if purchasedSwipes p > 0
                   then (rollOver clk k (db w))\<lparr>usersCollection :=
                          updateFirst k (\<lambda>u. u\<lparr>purchasedSwipes := purchasedSwipes u - 1\<rparr>)
                            (usersCollection (rollOver clk k (db w)))\<rparr>
                   else snd (incrementDailySwipes clk k (rollOver clk k (db w))))"
    and st: "rollOver clk k d2 = d2"
  shows "db (snd (skipAction clk k w)) = d2"
proof -
  obtain a where g: "getAvailableSwipes clk k (db w) = (a, rollOver clk k (db w))"
    using snd_getAvailableSwipes[of clk k "db w"] by (cases "getAvailableSwipes clk k (db w)") auto
  define w1 where "w1 = clearMessageStep k (getSession k (w\<lparr>db := d2\<rparr>))"
  have s1: "db (snd (showOrRebuild clk k w1)) = d2"
    using showOrRebuild_db_stable[of clk k w1] st by (simp add: w1_def)
  have "skipAction clk k w = showOrRebuild clk k w1"
    unfolding w1_def d2 using r f t g
    by (auto simp: skipAction_def findOne_def updateOne_def Let_def)
  with s1 show ?thesis by simp
qed

text \<open>
  C2 (as amended). For a user whose profile exists, whose last swipe reset is on
  the current calendar day and whose available total is positive, a skip with
  \<open>purchasedSwipes > 0\<close> decrements \<open>purchasedSwipes\<close> by one and leaves
  \<open>dailySwipes\<close> as it was; with \<open>purchasedSwipes = 0\<close> it increments
  \<open>dailySwipes\<close> by one and leaves \<open>purchasedSwipes\<close> as it was.
\<close>

theorem skip_consumes_one_swipe:
  assumes r: "reachable (db w)" and f: "find (\<lambda>u. uid u = k) (usersCollection (db w)) = Some p"
    and today: "onDay (tzOffset clk) (startOfDay (tzOffset clk) (now clk)) p"
    and t: "0 < total (fst (getAvailableSwipes clk k (db w)))"
  shows "\<exists>p'. find (\<lambda>u. uid u = k) (usersCollection (db (snd (skipAction clk k w)))) = Some p'
           \<and> (0 < purchasedSwipes p \<longrightarrow>
                purchasedSwipes p' = purchasedSwipes p - 1 \<and> dailySwipes p' = dailySwipes p)
           \<and> (purchasedSwipes p = 0 \<longrightarrow>
                dailySwipes p' = dailySwipes p + 1 \<and> purchasedSwipes p' = purchasedSwipes p)"
proof -
  let ?D = "startOfDay (tzOffset clk) (now clk)"
  have ro: "rollOver clk k (db w) = db w" by (rule rollOver_today[OF r f today])
  show ?thesis
  proof (cases "0 < purchasedSwipes p")
    case True
    define d2 where "d2 = (db w)\<lparr>usersCollection :=
        updateFirst k (\<lambda>u. u\<lparr>purchasedSwipes := purchasedSwipes u - 1\<rparr>) (usersCollection (db w))\<rparr>"
    have f2: "find (\<lambda>u. uid u = k) (usersCollection d2) = Some (p\<lparr>purchasedSwipes := purchasedSwipes p - 1\<rparr>)"
      using f by (simp add: d2_def find_updateFirst)
    have "rollOver clk k d2 = d2"
      by (rule rollOver_today[OF _ f2]) (use r today in \<open>simp_all add: d2_def onDay_def\<close>)
    then have "db (snd (skipAction clk k w)) = d2"
      using skipAction_db[OF r f t, of d2] True ro by (simp add: d2_def)
    with f2 True show ?thesis by simp
  next
    case False
    define d2 where "d2 = snd (incrementDailySwipes clk k (db w))"
    have d2': "d2 = (db w)\<lparr>usersCollection :=
        updateFirst k (\<lambda>u. u\<lparr>dailySwipes := dailySwipes u + 1\<rparr>) (usersCollection (db w))\<rparr>"
      unfolding d2_def by (rule increment_today[OF r f today])
    define p' where "p' = p\<lparr>dailySwipes := dailySwipes p + 1\<rparr>"
    have p': "find (\<lambda>u. uid u = k) (usersCollection d2) = Some p'"
        "onDay (tzOffset clk) ?D p'" "dailySwipes p' = dailySwipes p + 1"
        "purchasedSwipes p' = purchasedSwipes p" "reachable d2"
      using f r today by (simp_all add: d2' p'_def find_updateFirst onDay_def)
    have "rollOver clk k d2 = d2"
      by (rule rollOver_today[OF p'(5) p'(1) p'(2)])
    then have "db (snd (skipAction clk k w)) = d2"
      using skipAction_db[OF r f t, of d2] False ro by (simp add: d2_def)
    with p' False show ?thesis by simp
  qed
qed


theorem skip_consumes_one_swipe_witness:
  "\<exists>p'. find (\<lambda>u. uid u = 1)
     (usersCollection (db (snd (skipAction \<lparr>now = 86400000 + 500, tzOffset = 0\<rparr> 1
        \<lparr>db = \<lparr>usersCollection =
                 [\<lparr>uid = 1, name = ''Ann'', gender = ''female'', looking = ''men'',
                   likes = [], matches = [], recentLikes = [], dailySwipes = 0,
                   lastSwipeReset = Some 86400000, purchasedSwipes = 5\<rparr>],
               deletionReasonsCollection = [], reachable = True\<rparr>,
          sessions = Map.empty\<rparr>)))) = Some p' \<and> purchasedSwipes p' = 4 \<and> dailySwipes p' = 0"
proof -
  let ?p = "\<lparr>uid = 1, name = ''Ann'', gender = ''female'', looking = ''men'',
                   likes = [], matches = [], recentLikes = [], dailySwipes = 0,
                   lastSwipeReset = Some 86400000, purchasedSwipes = 5\<rparr>"
  let ?w = "\<lparr>db = \<lparr>usersCollection = [?p], deletionReasonsCollection = [], reachable = True\<rparr>,
          sessions = Map.empty\<rparr>"
  let ?clk = "\<lparr>now = 86400000 + 500, tzOffset = 0\<rparr>"
  have h1: "reachable (db ?w)" by simp
  have h2: "find (\<lambda>u. uid u = 1) (usersCollection (db ?w)) = Some ?p" by simp
  have h3: "onDay (tzOffset ?clk) (startOfDay (tzOffset ?clk) (now ?clk)) ?p"
    by (simp add: onDay_def startOfDay_def)
  have h4: "0 < total (fst (getAvailableSwipes ?clk 1 (db ?w)))"
    by (simp add: getAvailableSwipes_def checkAndResetDailySwipes_def findOne_def startOfDay_def)
  show ?thesis
    using skip_consumes_one_swipe[OF h1 h2 h3 h4] by simp
qed

text \<open>The claim as stated fails at the limit: with 20 swipes used today and no
  purchased credits, a skip answers with the purchase offer and leaves the counter
  at 20.\<close>

theorem skip_at_limit_counterexample:
  "skipAction \<lparr>now = 86400000 + 500, tzOffset = 0\<rparr> 1
        \<lparr>db = \<lparr>usersCollection =
                 [\<lparr>uid = 1, name = ''Ann'', gender = ''female'', looking = ''men'',
                   likes = [], matches = [], recentLikes = [], dailySwipes = 20,
                   lastSwipeReset = Some 86400000, purchasedSwipes = 0\<rparr>],
               deletionReasonsCollection = [], reachable = True\<rparr>,
          sessions = Map.empty\<rparr>
   = (Inr [PurchaseOffer],
        \<lparr>db = \<lparr>usersCollection =
                 [\<lparr>uid = 1, name = ''Ann'', gender = ''female'', looking = ''men'',
                   likes = [], matches = [], recentLikes = [], dailySwipes = 20,
                   lastSwipeReset = Some 86400000, purchasedSwipes = 0\<rparr>],
               deletionReasonsCollection = [], reachable = True\<rparr>,
          sessions = Map.empty\<rparr>)
   \<and> onDay 0 (startOfDay 0 (86400000 + 500))
         \<lparr>uid = 1, name = ''Ann'', gender = ''female'', looking = ''men'',
           likes = [], matches = [], recentLikes = [], dailySwipes = 20,
           lastSwipeReset = Some 86400000, purchasedSwipes = 0\<rparr>"
  by (simp add: skipAction_def getAvailableSwipes_def checkAndResetDailySwipes_def findOne_def
        startOfDay_def onDay_def)


section \<open>The loaded snapshot\<close>

lemma update_fresh_key: "k \<notin> fst ` set al \<Longrightarrow> AList.update k v al = al @ [(k, v)]"
  by (induction al) auto

lemma fold_update_distinct:
  "distinct (map uid us) \<Longrightarrow> uid ` set us \<inter> fst ` set acc = {} \<Longrightarrow>
   fold (\<lambda>user users. AList.update (uid user) user users) us acc = acc @ map (\<lambda>u. (uid u, u)) us"
proof (induction us arbitrary: acc)
  case Nil
  then show ?case by simp
next
  case (Cons u us)
  have "uid u \<notin> fst ` set acc" using Cons.prems by auto
  then have "AList.update (uid u) u acc = acc @ [(uid u, u)]" by (rule update_fresh_key)
  moreover have "uid ` set us \<inter> fst ` set (acc @ [(uid u, u)]) = {}"
    using Cons.prems by auto
  ultimately show ?case using Cons by simp
qed

lemma loadDB_distinct:
  "reachable d \<Longrightarrow> distinct (map uid (usersCollection d)) \<Longrightarrow>
   loadDB d = map (\<lambda>u. (uid u, u)) (usersCollection d)"
  using fold_update_distinct[of "usersCollection d" "[]"] by (simp add: loadDB_def findAll_def)

lemma map_of_keyed: "map_of (map (\<lambda>u. (uid u, u)) us) k = find (\<lambda>u. uid u = k) us"
  by (induction us) auto

lemma map_of_loadDB:
  "reachable d \<Longrightarrow> distinct (map uid (usersCollection d)) \<Longrightarrow>
   map_of (loadDB d) k = find (\<lambda>u. uid u = k) (usersCollection d)"
  by (simp add: loadDB_distinct map_of_keyed)

lemma validUsers_distinct:
  "reachable d \<Longrightarrow> distinct (map uid (usersCollection d)) \<Longrightarrow>
   validUsers d = filter (\<lambda>u. uid u \<noteq> 0) (usersCollection d)"
  by (simp add: validUsers_def loadDB_distinct comp_def)

section \<open>The swipe limit\<close>

lemma limit_reached_no_reset:
  assumes r: "reachable d" and f: "find (\<lambda>u. uid u = k) (usersCollection d) = Some p"
    and nn: "0 \<le> purchasedSwipes p"
    and t: "total (fst (getAvailableSwipes clk k d)) \<le> 0"
  shows "rollOver clk k d = d"
proof (cases "onDay (tzOffset clk) (startOfDay (tzOffset clk) (now clk)) p")
  case True
  then show ?thesis by (rule rollOver_today[OF r f])
next
  case False
  then have "total (fst (getAvailableSwipes clk k d)) = 20 + purchasedSwipes p"
    using getAvailableSwipes_usedToday[OF r f refl, of clk] by (simp add: usedToday_def)
  with nn t show ?thesis by simp
qed

lemma limit_reached_gAS:
  assumes r: "reachable d" and f: "find (\<lambda>u. uid u = k) (usersCollection d) = Some p"
    and nn: "0 \<le> purchasedSwipes p"
    and t: "total (fst (getAvailableSwipes clk k d)) \<le> 0"
  shows "snd (getAvailableSwipes clk k d) = d"
  using limit_reached_no_reset[OF assms] by (simp add: snd_getAvailableSwipes)

lemma showCandidate_limit:
  assumes r: "reachable (db w)" and f: "find (\<lambda>u. uid u = k) (usersCollection (db w)) = Some p"
    and nn: "0 \<le> purchasedSwipes p"
    and t: "total (fst (getAvailableSwipes clk k (db w))) \<le> 0"
  shows "showCandidate clk k w = (Inr [PurchaseOffer], w)"
proof -
  have "checkProfileAndLimit clk k w = Inl (Inr [PurchaseOffer], w)"
    using r f t limit_reached_gAS[OF r f nn t]
    by (simp add: checkProfileAndLimit_def findOne_def Let_def split_beta)
  then show ?thesis by (subst showCandidate.simps) simp
qed

lemma skipAction_limit:
  assumes r: "reachable (db w)" and f: "find (\<lambda>u. uid u = k) (usersCollection (db w)) = Some p"
    and nn: "0 \<le> purchasedSwipes p"
    and t: "total (fst (getAvailableSwipes clk k (db w))) \<le> 0"
  shows "skipAction clk k w = (Inr [PurchaseOffer], w)"
  using r f t limit_reached_gAS[OF r f nn t]
  by (simp add: skipAction_def findOne_def Let_def split_beta)

lemma messageAction_limit:
  assumes r: "reachable (db w)" and f: "find (\<lambda>u. uid u = k) (usersCollection (db w)) = Some p"
    and nn: "0 \<le> purchasedSwipes p"
    and t: "total (fst (getAvailableSwipes clk k (db w))) \<le> 0"
  shows "messageAction clk k targetId w = (Inr [PurchaseOffer], w)"
  using r f t limit_reached_gAS[OF r f nn t]
  by (simp add: messageAction_def findOne_def Let_def split_beta)

lemma likeAction_limit:
  assumes r: "reachable (db w)" and dist: "distinct (map uid (usersCollection (db w)))"
    and f: "find (\<lambda>u. uid u = k) (usersCollection (db w)) = Some p"
    and ft: "find (\<lambda>u. uid u = targetId) (usersCollection (db w)) = Some q"
    and nn: "0 \<le> purchasedSwipes p"
    and t: "total (fst (getAvailableSwipes clk k (db w))) \<le> 0"
  shows "likeAction clk k targetId w = (Inr [PurchaseOffer], w)"
  using r f ft t limit_reached_gAS[OF r f nn t] map_of_loadDB[OF r dist]
  by (simp add: likeAction_def Let_def split_beta)


section \<open>The builder never gives up while someone else is there\<close>

lemma sort_key_Nil_iff [simp]: "(sort_key f xs = []) = (xs = [])"
  by (metis length_0_conv length_sort)

lemma candidatePool_empty_iff:
  "(candidatePool me k d = []) = (\<not> (\<exists>u\<in>set (validUsers d). uid u \<noteq> k))"
proof -
  have "(filter (relaxedFilter k False []) (validUsers d) = []) = (\<not> (\<exists>u\<in>set (validUsers d). uid u \<noteq> k))"
    by (auto simp: filter_empty_conv relaxedFilter_def validUsers_valid)
  moreover have "filter (relaxedFilter k False []) (validUsers d) = [] \<Longrightarrow>
      filter (strictFilter me k False []) (validUsers d) = []"
    by (auto simp: filter_empty_conv relaxedFilter_def strictFilter_def)
  ultimately show ?thesis by (auto simp: candidatePool_def)
qed

lemma build_result:
  assumes "map_of (loadDB (db w)) k = Some me"
  shows "buildCandidateQueue k e w =
     (let strictShown = filter (strictFilter me k e (if e then shown (sessionOf w k) else []))
                          (validUsers (db w))
      in if strictShown \<noteq> [] then (Some (sort_key uid strictShown), getSession k w)
         else (Some (candidatePool me k (db w)),
               if e \<and> shown (sessionOf w k) \<noteq> []
               then updSession k (\<lambda>s. s\<lparr>shown := []\<rparr>) w
               else getSession k w))"
proof (cases "e \<and> shown (sessionOf w k) \<noteq> []")
  case True
  then show ?thesis using assms by (simp add: build_True_shown Let_def)
next
  case False
  then have "buildCandidateQueue k e w = (Some (candidatePool me k (db w)), getSession k w)"
    using assms by (cases e) (simp_all add: build_False build_True_fresh)
  moreover have "filter (strictFilter me k e (if e then shown (sessionOf w k) else [])) (validUsers (db w))
      = filter (strictFilter me k False []) (validUsers (db w))"
    using False by (cases e) auto
  ultimately show ?thesis using False
    by (auto simp: Let_def candidatePool_def)
qed

lemma strict_nonempty_other:
  "filter (strictFilter me k e sh) us \<noteq> [] \<Longrightarrow> \<exists>u\<in>set us. uid u \<noteq> 0 \<and> uid u \<noteq> k"
  by (auto simp: filter_empty_conv strictFilter_def split: if_splits)

lemma build_nonempty:
  assumes "map_of (loadDB (db w)) k = Some me" "\<exists>u\<in>set (validUsers (db w)). uid u \<noteq> k"
  shows "\<not> queueEmpty (fst (buildCandidateQueue k e w))"
  using assms candidatePool_empty_iff[of me k "db w"]
  by (auto simp: build_result Let_def queueEmpty_def)


text \<open>
  C6. For a user with a profile, \<open>buildCandidateQueue\<close> returns a list, and the
  list is empty only when no other valid user is stored. When the strict filter
  (bidirectional preference, without self and, if asked, without the shown-set)
  finds no one, the shown-set is cleared if it was excluding someone, and the
  result is the strict filter over everyone else, or, when that is empty too, every
  other valid user.
\<close>

theorem build_empty_only_when_alone:
  assumes r: "reachable (db w)" and dist: "distinct (map uid (usersCollection (db w)))"
    and f: "find (\<lambda>u. uid u = k) (usersCollection (db w)) = Some me"
  shows "\<exists>q w'. buildCandidateQueue k e w = (Some q, w')
           \<and> (q = [] \<longleftrightarrow> \<not> (\<exists>u\<in>set (usersCollection (db w)). uid u \<noteq> 0 \<and> uid u \<noteq> k))
           \<and> (filter (strictFilter me k e (if e then shown (sessionOf w k) else []))
                 (filter (\<lambda>u. uid u \<noteq> 0) (usersCollection (db w))) = [] \<longrightarrow>
                q = candidatePool me k (db w) \<and> (e \<longrightarrow> shown (sessionOf w' k) = []))"
proof -
  have m: "map_of (loadDB (db w)) k = Some me" using map_of_loadDB[OF r dist] f by simp
  have v: "validUsers (db w) = filter (\<lambda>u. uid u \<noteq> 0) (usersCollection (db w))"
    by (rule validUsers_distinct[OF r dist])
  have i: "(candidatePool me k (db w) = []) =
      (\<not> (\<exists>u\<in>set (usersCollection (db w)). uid u \<noteq> 0 \<and> uid u \<noteq> k))"
    by (auto simp: candidatePool_empty_iff v)
  have s: "filter (strictFilter me k e sh) (validUsers (db w)) \<noteq> [] \<Longrightarrow>
      \<exists>u\<in>set (usersCollection (db w)). uid u \<noteq> 0 \<and> uid u \<noteq> k" for sh
    using strict_nonempty_other[of me k e sh "validUsers (db w)"] by (auto simp: v)
  show ?thesis
    using i s[of "shown (sessionOf w k)"] s[of "[]"]
    by (auto simp: build_result[OF m] v[symmetric] Let_def)
qed

theorem build_empty_only_when_alone_witness:
  "buildCandidateQueue 1 True
     \<lparr>db = \<lparr>usersCollection =
              [\<lparr>uid = 1, name = ''Ann'', gender = ''female'', looking = ''men'',
                likes = [], matches = [], recentLikes = [], dailySwipes = 0,
                lastSwipeReset = None, purchasedSwipes = 0\<rparr>,
               \<lparr>uid = 2, name = ''Bea'', gender = ''female'', looking = ''men'',
                likes = [], matches = [], recentLikes = [], dailySwipes = 0,
                lastSwipeReset = None, purchasedSwipes = 0\<rparr>],
            deletionReasonsCollection = [], reachable = True\<rparr>,
       sessions = [1 \<mapsto> \<lparr>queue = Some [], shown = [2], lastPreference = Some ''men'',
                          waitingForDeletionReason = False, step = None, messageTargetId = None\<rparr>]\<rparr>
   = (Some [\<lparr>uid = 2, name = ''Bea'', gender = ''female'', looking = ''men'',
                likes = [], matches = [], recentLikes = [], dailySwipes = 0,
                lastSwipeReset = None, purchasedSwipes = 0\<rparr>],
      \<lparr>db = \<lparr>usersCollection =
              [\<lparr>uid = 1, name = ''Ann'', gender = ''female'', looking = ''men'',
                likes = [], matches = [], recentLikes = [], dailySwipes = 0,
                lastSwipeReset = None, purchasedSwipes = 0\<rparr>,
               \<lparr>uid = 2, name = ''Bea'', gender = ''female'', looking = ''men'',
                likes = [], matches = [], recentLikes = [], dailySwipes = 0,
                lastSwipeReset = None, purchasedSwipes = 0\<rparr>],
            deletionReasonsCollection = [], reachable = True\<rparr>,
       sessions = [1 \<mapsto> \<lparr>queue = Some [], shown = [], lastPreference = Some ''men'',
                          waitingForDeletionReason = False, step = None, messageTargetId = None\<rparr>]\<rparr>)"
proof -
  let ?a = "\<lparr>uid = 1, name = ''Ann'', gender = ''female'', looking = ''men'',
                likes = [], matches = [], recentLikes = [], dailySwipes = 0,
                lastSwipeReset = None, purchasedSwipes = 0\<rparr>"
  let ?b = "\<lparr>uid = 2, name = ''Bea'', gender = ''female'', looking = ''men'',
                likes = [], matches = [], recentLikes = [], dailySwipes = 0,
                lastSwipeReset = None, purchasedSwipes = 0\<rparr>"
  let ?d = "\<lparr>usersCollection = [?a, ?b], deletionReasonsCollection = [], reachable = True\<rparr>"
  let ?w = "\<lparr>db = ?d, sessions = [1 \<mapsto> \<lparr>queue = Some [], shown = [2], lastPreference = Some ''men'',
                          waitingForDeletionReason = False, step = None, messageTargetId = None\<rparr>]\<rparr>"
  have h1: "reachable (db ?w)" by simp
  have h2: "distinct (map uid (usersCollection (db ?w)))" by simp
  have h3: "find (\<lambda>u. uid u = 1) (usersCollection (db ?w)) = Some ?a" by simp
  have m: "map_of (loadDB (db ?w)) 1 = Some ?a"
    by (simp add: loadDB_def findAll_def)
  have v: "validUsers (db ?w) = [?a, ?b]"
    by (simp add: validUsers_def loadDB_def findAll_def)
  have pool: "candidatePool ?a 1 ?d = [?b]"
    using v by (simp add: candidatePool_def strictFilter_def relaxedFilter_def
        meLikesTargetGender_def targetLikesMeGender_def)
  have w': "snd (buildCandidateQueue 1 True ?w) = updSession 1 (\<lambda>s. s\<lparr>shown := []\<rparr>) ?w"
    using v by (simp add: build_result[OF m] Let_def strictFilter_def sessionOf_def)
  from build_empty_only_when_alone[OF h1 h2 h3, of True]
  have "fst (buildCandidateQueue 1 True ?w) = Some [?b]"
    using pool by (auto simp: strictFilter_def sessionOf_def)
  with w' show ?thesis
    by (simp add: prod_eq_iff updSession_def sessionOf_def)
qed


text \<open>The document that the end of the creation dialogue stores for a new user
  (\<open>finish_photos\<close>): empty arrays, counters at zero, the reset timestamp at the
  time of creation.\<close>

definition newProfile :: "int \<Rightarrow> string \<Rightarrow> string \<Rightarrow> string \<Rightarrow> int \<Rightarrow> profile" where
  "newProfile i n g l t =
     \<lparr>uid = i, name = n, gender = g, looking = l, likes = [], matches = [], recentLikes = [],
      dailySwipes = 0, lastSwipeReset = Some t, purchasedSwipes = 0\<rparr>"

section \<open>Preparing the queue in showNext\<close>

lemma db_resetOnPreferenceChange [simp]: "db (resetOnPreferenceChange me k w) = db w"
  by (simp add: resetOnPreferenceChange_def)

lemma db_firstBuild [simp]: "db (firstBuild k w) = db w"
  by (simp add: firstBuild_def Let_def)

lemma db_retryBuild [simp]: "db (retryBuild k w) = db w"
  by (simp add: retryBuild_def Let_def)

lemma queue_setQueue [simp]: "queue (sessionOf (setQueue k r) k) = fst r"
  by (simp add: setQueue_def)

lemma firstBuild_nonempty:
  assumes "map_of (loadDB (db w)) k = Some me" "\<exists>u\<in>set (validUsers (db w)). uid u \<noteq> k"
  shows "\<not> queueEmpty (queue (sessionOf (firstBuild k w) k))"
  using build_nonempty[OF assms, of True] by (simp add: firstBuild_def Let_def)

lemma firstBuild_keep:
  "\<not> queueEmpty (queue (sessionOf w k)) \<Longrightarrow> firstBuild k w = w"
  by (simp add: firstBuild_def)

lemma retryBuild_keep:
  "\<not> queueEmpty (queue (sessionOf w k)) \<Longrightarrow> retryBuild k w = w"
  by (simp add: retryBuild_def)

lemma firstBuild_fresh:
  assumes m: "map_of (loadDB (db w)) k = Some me" and o: "\<exists>u\<in>set (validUsers (db w)). uid u \<noteq> k"
    and q: "queueEmpty (queue (sessionOf w k))" and s: "shown (sessionOf w k) = []"
  shows "firstBuild k w = updSession k (\<lambda>s. s\<lparr>queue := Some (candidatePool me k (db w))\<rparr>) w"
proof -
  have b: "buildCandidateQueue k True w = (Some (candidatePool me k (db w)), getSession k w)"
    by (rule build_True_fresh[OF m s])
  have "candidatePool me k (db w) \<noteq> []" using o by (simp add: candidatePool_empty_iff)
  then show ?thesis using q
    by (simp add: firstBuild_def b setQueue_def Let_def queueEmpty_def)
qed

lemma two_keys_length:
  assumes "find (\<lambda>u. uid u = k) us = Some p" "u \<in> set us" "uid u \<noteq> k"
  shows "1 < length us"
proof -
  have "p \<in> set us" "uid p = k"
    using assms(1) by (auto simp: find_Some_iff)
  with assms have "{p, u} \<subseteq> set us" "p \<noteq> u" by auto
  then have "card {p, u} \<le> card (set us)" by (intro card_mono) auto
  with \<open>p \<noteq> u\<close> have "2 \<le> card (set us)" by simp
  then show ?thesis using card_length[of us] by linarith
qed

lemma showNext_limit:
  assumes r: "reachable (db w)" and dist: "distinct (map uid (usersCollection (db w)))"
    and f: "find (\<lambda>u. uid u = k) (usersCollection (db w)) = Some p"
    and o: "\<exists>u\<in>set (usersCollection (db w)). uid u \<noteq> 0 \<and> uid u \<noteq> k"
    and nn: "0 \<le> purchasedSwipes p"
    and t: "total (fst (getAvailableSwipes clk k (db w))) \<le> 0"
  shows "showNext clk k w =
           (Inr [PurchaseOffer], firstBuild k (resetOnPreferenceChange p k (getSession k w)))"
proof -
  have m: "map_of (loadDB (db w)) k = Some p" using map_of_loadDB[OF r dist] f by simp
  have o': "\<exists>u\<in>set (validUsers (db w)). uid u \<noteq> k"
    using o by (auto simp: validUsers_distinct[OF r dist])
  define w1 where "w1 = firstBuild k (resetOnPreferenceChange p k (getSession k w))"
  have ne: "\<not> queueEmpty (queue (sessionOf w1 k))"
    unfolding w1_def by (rule firstBuild_nonempty[where me = p]) (use m o' in simp_all)
  have len: "1 < length (loadDB (db w))"
    using o two_keys_length[OF f] by (auto simp: loadDB_distinct[OF r dist])
  have g: "snd (getAvailableSwipes clk k (db w)) = db w" by (rule limit_reached_gAS[OF r f nn t])
  have d1: "db w1 = db w" by (simp add: w1_def)
  show ?thesis
    using m ne len t g d1
    by (simp add: showNext_def Let_def split_beta w1_def[symmetric] retryBuild_keep)
qed


text \<open>
  C9. For a user with a profile whose available total is zero (the purchased
  balance being a non-negative integer, as the data model has it), presenting a
  candidate, skip, like and entering the message flow answer with the purchase
  offer and nothing else, and leave the whole state as it was: no queue is advanced,
  no \<open>likes\<close>, \<open>matches\<close> or swipe counter of the requester or of the target is
  written. \<open>showNext\<close>, which prepares the queue before it checks the limit, may
  rebuild the queue (when someone else is there to present), but removes nothing from
  it, and leaves the session alone when it holds a non-empty queue for the current
  preference.
\<close>

theorem limit_short_circuits:
  assumes r: "reachable (db w)" and dist: "distinct (map uid (usersCollection (db w)))"
    and f: "find (\<lambda>u. uid u = k) (usersCollection (db w)) = Some p"
    and nn: "0 \<le> purchasedSwipes p"
    and t: "total (fst (getAvailableSwipes clk k (db w))) = 0"
  shows "showCandidate clk k w = (Inr [PurchaseOffer], w)
       \<and> skipAction clk k w = (Inr [PurchaseOffer], w)
       \<and> messageAction clk k targetId w = (Inr [PurchaseOffer], w)
       \<and> (find (\<lambda>u. uid u = targetId) (usersCollection (db w)) \<noteq> None \<longrightarrow>
            likeAction clk k targetId w = (Inr [PurchaseOffer], w))
       \<and> ((\<exists>u\<in>set (usersCollection (db w)). uid u \<noteq> 0 \<and> uid u \<noteq> k) \<longrightarrow>
            showNext clk k w =
              (Inr [PurchaseOffer], firstBuild k (resetOnPreferenceChange p k (getSession k w)))
            \<and> db (snd (showNext clk k w)) = db w
            \<and> (\<not> queueEmpty (queue (sessionOf w k))
                 \<and> lastPreference (sessionOf w k) = Some (currentPreferenceOf p) \<longrightarrow>
                snd (showNext clk k w) = getSession k w))"
proof -
  have t': "total (fst (getAvailableSwipes clk k (db w))) \<le> 0" using t by simp
  have a: "showCandidate clk k w = (Inr [PurchaseOffer], w)"
    by (rule showCandidate_limit[OF r f nn t'])
  have b: "skipAction clk k w = (Inr [PurchaseOffer], w)"
    by (rule skipAction_limit[OF r f nn t'])
  have c: "messageAction clk k targetId w = (Inr [PurchaseOffer], w)"
    by (rule messageAction_limit[OF r f nn t'])
  have d: "likeAction clk k targetId w = (Inr [PurchaseOffer], w)"
    if "find (\<lambda>u. uid u = targetId) (usersCollection (db w)) \<noteq> None"
    using that likeAction_limit[OF r dist f _ nn t'] by auto
  have e: "showNext clk k w =
              (Inr [PurchaseOffer], firstBuild k (resetOnPreferenceChange p k (getSession k w)))"
    if "\<exists>u\<in>set (usersCollection (db w)). uid u \<noteq> 0 \<and> uid u \<noteq> k"
    by (rule showNext_limit[OF r dist f that nn t'])
  have g: "firstBuild k (resetOnPreferenceChange p k (getSession k w)) = getSession k w"
    if "\<not> queueEmpty (queue (sessionOf w k))"
       "lastPreference (sessionOf w k) = Some (currentPreferenceOf p)"
    using that by (simp add: resetOnPreferenceChange_def firstBuild_keep)
  show ?thesis
    using a b c d e g by simp
qed


theorem limit_short_circuits_witness:
  "let ann = (newProfile 1 ''Ann'' ''female'' ''men'' 86400000)\<lparr>dailySwipes := 20\<rparr>;
       bob = newProfile 2 ''Bob'' ''male'' ''women'' 86400000;
       w = \<lparr>db = \<lparr>usersCollection = [ann, bob], deletionReasonsCollection = [], reachable = True\<rparr>,
            sessions = [1 \<mapsto> \<lparr>queue = Some [bob], shown = [], lastPreference = Some ''men'',
                               waitingForDeletionReason = False, step = None,
                               messageTargetId = None\<rparr>]\<rparr>;
       clk = \<lparr>now = 86400000 + 500, tzOffset = 0\<rparr>
   in total (fst (getAvailableSwipes clk 1 (db w))) = 0
      \<and> showCandidate clk 1 w = (Inr [PurchaseOffer], w)
      \<and> skipAction clk 1 w = (Inr [PurchaseOffer], w)
      \<and> messageAction clk 1 2 w = (Inr [PurchaseOffer], w)
      \<and> likeAction clk 1 2 w = (Inr [PurchaseOffer], w)
      \<and> showNext clk 1 w = (Inr [PurchaseOffer], w)"
proof -
  define ann where "ann = (newProfile 1 ''Ann'' ''female'' ''men'' 86400000)\<lparr>dailySwipes := 20\<rparr>"
  define bob where "bob = newProfile 2 ''Bob'' ''male'' ''women'' 86400000"
  define w where "w = \<lparr>db = \<lparr>usersCollection = [ann, bob], deletionReasonsCollection = [], reachable = True\<rparr>,
            sessions = [1 \<mapsto> \<lparr>queue = Some [bob], shown = [], lastPreference = Some ''men'',
                               waitingForDeletionReason = False, step = None,
                               messageTargetId = None\<rparr>]\<rparr>"
  define clk where "clk = \<lparr>now = 86400000 + 500, tzOffset = 0\<rparr>"
  have h1: "reachable (db w)" by (simp add: w_def)
  have h2: "distinct (map uid (usersCollection (db w)))"
    by (simp add: w_def ann_def bob_def newProfile_def)
  have h3: "find (\<lambda>u. uid u = 1) (usersCollection (db w)) = Some ann"
    by (simp add: w_def ann_def newProfile_def)
  have h4: "0 \<le> purchasedSwipes ann" by (simp add: ann_def newProfile_def)
  have h5: "total (fst (getAvailableSwipes clk 1 (db w))) = 0"
    by (simp add: w_def ann_def bob_def clk_def newProfile_def getAvailableSwipes_def
          checkAndResetDailySwipes_def findOne_def startOfDay_def)
  have h6: "find (\<lambda>u. uid u = 2) (usersCollection (db w)) \<noteq> None"
    by (simp add: w_def ann_def bob_def newProfile_def)
  have h7: "\<exists>u\<in>set (usersCollection (db w)). uid u \<noteq> 0 \<and> uid u \<noteq> 1"
    by (simp add: w_def ann_def bob_def newProfile_def)
  have h8: "\<not> queueEmpty (queue (sessionOf w 1)) \<and>
        lastPreference (sessionOf w 1) = Some (currentPreferenceOf ann)"
    by (simp add: w_def sessionOf_def queueEmpty_def currentPreferenceOf_def ann_def newProfile_def)
  have h9: "getSession 1 w = w"
    by (simp add: w_def getSession_def updSession_def sessionOf_def)
  have e1: "showNext clk 1 w =
      (Inr [PurchaseOffer], firstBuild 1 (resetOnPreferenceChange ann 1 (getSession 1 w)))"
    using limit_short_circuits[OF h1 h2 h3 h4 h5, of 2] h7 by blast
  have e2: "snd (showNext clk 1 w) = getSession 1 w"
    using limit_short_circuits[OF h1 h2 h3 h4 h5, of 2] h7 h8 by blast
  have n: "showNext clk 1 w = (Inr [PurchaseOffer], w)"
    using e2 h9 unfolding e1 by simp
  show ?thesis
    using limit_short_circuits[OF h1 h2 h3 h4 h5, of 2] h5 h6 n
    unfolding Let_def ann_def[symmetric] bob_def[symmetric] w_def[symmetric] clk_def[symmetric]
    by simp
qed


section \<open>Presenting from the queue\<close>

lemma checkProfileAndLimit_pass:
  assumes "reachable (db w)" "find (\<lambda>u. uid u = k) (usersCollection (db w)) = Some p"
    "0 < total (fst (getAvailableSwipes clk k (db w)))"
  shows "checkProfileAndLimit clk k w = Inr (w\<lparr>db := rollOver clk k (db w)\<rparr>)"
  using assms
  by (simp add: checkProfileAndLimit_def findOne_def Let_def split_beta snd_getAvailableSwipes)

lemma markShown_fresh:
  "shown (sessionOf w k) = [] \<Longrightarrow> markShown k t w = updSession k (\<lambda>s. s\<lparr>shown := [t]\<rparr>) w"
  by (simp add: markShown_def updSession_def)


lemma showCandidate_pop:
  assumes r: "reachable (db w)" and f: "find (\<lambda>u. uid u = k) (usersCollection (db w)) = Some p"
    and t: "0 < total (fst (getAvailableSwipes clk k (db w)))"
    and q: "queue (sessionOf w k) = Some (c # rest)" and v: "uid c \<noteq> 0"
  shows "showCandidate clk k w =
     (Inr [ShowProfile c],
      markShown k (uid c) (updSession k (\<lambda>s. s\<lparr>queue := Some rest\<rparr>) (w\<lparr>db := rollOver clk k (db w)\<rparr>)))"
proof -
  define w1 where "w1 = w\<lparr>db := rollOver clk k (db w)\<rparr>"
  have c: "checkProfileAndLimit clk k w = Inr w1"
    unfolding w1_def by (rule checkProfileAndLimit_pass[OF r f t])
  have q1: "queue (sessionOf (getSession k w1) k) = Some (c # rest)" using q by (simp add: w1_def)
  then have rb: "rebuildWhenEmpty k (getSession k w1) = Inr (getSession k w1)"
    by (simp add: rebuildWhenEmpty_def queueEmpty_def)
  have lr: "lastResortRebuild k (getSession k w1) = getSession k w1"
    using q1 by (simp add: lastResortRebuild_def queueEmpty_def)
  show ?thesis
    using v q1
    by (subst showCandidate.simps) (simp add: c rb lr Let_def queueEmpty_def w1_def[symmetric])
qed

lemma length_rollOver [simp]:
  "length (usersCollection (rollOver clk k d)) = length (usersCollection d)"
proof -
  have "length (updateFirst j f us) = length us" for j f us
    by (induction us) auto
  then show ?thesis using rollOver_cases[of clk k d] by auto
qed





section \<open>The identifiers a handler presents\<close>



section \<open>The rollover does not change who is eligible\<close>

lemma filter_updateFirst:
  assumes "\<And>u. uid (f u) = uid u" "\<And>u. P u \<Longrightarrow> uid u \<noteq> k"
  shows "filter P (updateFirst k f us) = filter P us"
proof (induction us)
  case Nil
  then show ?case by simp
next
  case (Cons u us)
  then show ?case using assms(2)[of u] assms(2)[of "f u"] assms(1)[of u] by auto
qed

lemma map_uid_updateFirst:
  "(\<And>u. uid (f u) = uid u) \<Longrightarrow> map uid (updateFirst k f us) = map uid us"
  by (induction us) auto

lemma map_uid_rollOver [simp]:
  "map uid (usersCollection (rollOver clk k d)) = map uid (usersCollection d)"
  using rollOver_cases[of clk k d] by (auto simp: map_uid_updateFirst)

lemma filter_rollOver:
  assumes "\<And>u. P u \<Longrightarrow> uid u \<noteq> k"
  shows "filter P (usersCollection (rollOver clk k d)) = filter P (usersCollection d)"
  using rollOver_cases[of clk k d] assms by (auto simp: filter_updateFirst)

lemma find_rollOver:
  assumes "find (\<lambda>u. uid u = k) (usersCollection d) = Some p"
  shows "\<exists>p'. find (\<lambda>u. uid u = k) (usersCollection (rollOver clk k d)) = Some p'
            \<and> gender p' = gender p \<and> looking p' = looking p
            \<and> purchasedSwipes p' = purchasedSwipes p"
  using rollOver_cases[of clk k d] assms by (auto simp: find_updateFirst)

lemma strictFilter_cong:
  "gender me' = gender me \<Longrightarrow> looking me' = looking me \<Longrightarrow>
   strictFilter me' k e sh = strictFilter me k e sh"
  by (auto simp: fun_eq_iff strictFilter_def meLikesTargetGender_def targetLikesMeGender_def)

lemma total_rollOver:
  assumes r: "reachable d" and f: "find (\<lambda>u. uid u = k) (usersCollection d) = Some p"
  shows "fst (getAvailableSwipes clk k (rollOver clk k d)) = fst (getAvailableSwipes clk k d)"
proof (cases "rollOver clk k d = d")
  case True
  then show ?thesis by simp
next
  case False
  let ?D = "startOfDay (tzOffset clk) (now clk)"
  let ?f = "\<lambda>u. u\<lparr>dailySwipes := 0, lastSwipeReset := Some ?D\<rparr>"
  from False rollOver_cases[of clk k d]
  have d': "rollOver clk k d = d\<lparr>usersCollection := updateFirst k ?f (usersCollection d)\<rparr>"
    by auto
  have st: "\<not> onDay (tzOffset clk) ?D p"
    using False rollOver_today[OF r f] by auto
  have f': "find (\<lambda>u. uid u = k) (usersCollection (rollOver clk k d)) = Some (?f p)"
    using f by (simp add: d' find_updateFirst)
  have r': "reachable (rollOver clk k d)" using r by simp
  have "usedToday (tzOffset clk) ?D (?f p) = 0" by (simp add: usedToday_def)
  moreover have "usedToday (tzOffset clk) ?D p = 0" using st by (simp add: usedToday_def)
  ultimately show ?thesis
    using getAvailableSwipes_usedToday[OF r f refl, of clk]
          getAvailableSwipes_usedToday[OF r' f' refl]
    by simp
qed






section \<open>A change of preference\<close>

lemma session_upd_order:
  "s\<lparr>shown := a, queue := b\<rparr> = s\<lparr>queue := b, shown := a\<rparr>"
  "s\<lparr>lastPreference := c, queue := b\<rparr> = s\<lparr>queue := b, lastPreference := c\<rparr>"
  "s\<lparr>lastPreference := c, shown := a\<rparr> = s\<lparr>shown := a, lastPreference := c\<rparr>"
  by (cases s; simp)+

lemma updSession_db_update:
  "updSession k f (w\<lparr>db := d\<rparr>) = (updSession k f w)\<lparr>db := d\<rparr>"
  by (simp add: updSession_def sessionOf_def)

lemma resetOnPreferenceChange_changed:
  "lastPreference (sessionOf w k) \<noteq> Some (currentPreferenceOf me) \<Longrightarrow>
   resetOnPreferenceChange me k (getSession k w) =
     updSession k (\<lambda>s. s\<lparr>shown := [], queue := None,
                            lastPreference := Some (currentPreferenceOf me)\<rparr>) w"
  by (simp add: resetOnPreferenceChange_def)

lemma showNext_changed:
  assumes r: "reachable (db w)" and dist: "distinct (map uid (usersCollection (db w)))"
    and f: "find (\<lambda>u. uid u = k) (usersCollection (db w)) = Some me"
    and ch: "lastPreference (sessionOf w k) \<noteq> Some (currentPreferenceOf me)"
    and pool: "candidatePool me k (db w) = c # cs"
    and t: "0 < total (fst (getAvailableSwipes clk k (db w)))"
  shows "showNext clk k w =
     (Inr [ShowProfile c],
      updSession k (\<lambda>s. s\<lparr>queue := Some cs, shown := [uid c],
                             lastPreference := Some (currentPreferenceOf me)\<rparr>)
        (w\<lparr>db := rollOver clk k (db w)\<rparr>))"
proof -
  have m: "map_of (loadDB (db w)) k = Some me" using map_of_loadDB[OF r dist] f by simp
  have o: "\<exists>u\<in>set (validUsers (db w)). uid u \<noteq> k"
    using candidatePool_empty_iff[of me k "db w"] pool by simp
  define wa where "wa = updSession k (\<lambda>s. s\<lparr>shown := [], queue := None,
                            lastPreference := Some (currentPreferenceOf me)\<rparr>) w"
  have ra: "resetOnPreferenceChange me k (getSession k w) = wa"
    unfolding wa_def by (rule resetOnPreferenceChange_changed[OF ch])
  define w1 where "w1 = updSession k (\<lambda>s. s\<lparr>shown := [], queue := Some (c # cs),
                            lastPreference := Some (currentPreferenceOf me)\<rparr>) w"
  have fb: "firstBuild k wa = w1"
    using firstBuild_fresh[of wa k me] m o pool
    by (simp add: wa_def w1_def queueEmpty_def session_upd_order)
  have keep: "retryBuild k w1 = w1"
    by (rule retryBuild_keep) (simp add: w1_def queueEmpty_def)
  have len: "1 < length (loadDB (db w))"
  proof -
    from o obtain u where "u \<in> set (usersCollection (db w))" "uid u \<noteq> k"
      by (auto simp: validUsers_distinct[OF r dist])
    then show ?thesis
      using two_keys_length[OF f] by (simp add: loadDB_distinct[OF r dist])
  qed
  define w3 where "w3 = w1\<lparr>db := rollOver clk k (db w)\<rparr>"
  from find_rollOver[OF f, of clk] obtain me' where
    f3: "find (\<lambda>u. uid u = k) (usersCollection (db w3)) = Some me'"
    by (auto simp: w3_def)
  have r3: "reachable (db w3)" using r by (simp add: w3_def)
  have t3: "0 < total (fst (getAvailableSwipes clk k (db w3)))"
    using t total_rollOver[OF r f, of clk] by (simp add: w3_def)
  have v: "uid c \<noteq> 0" using candidatePool_valid[of c me k "db w"] pool by simp
  have q3: "queue (sessionOf w3 k) = Some (c # cs)" by (simp add: w3_def w1_def)
  have sc: "showCandidate clk k w3 =
     (Inr [ShowProfile c],
      markShown k (uid c) (updSession k (\<lambda>s. s\<lparr>queue := Some cs\<rparr>) (w3\<lparr>db := rollOver clk k (db w3)\<rparr>)))"
    by (rule showCandidate_pop[OF r3 f3 t3 q3 v])
  have fin: "markShown k (uid c) (updSession k (\<lambda>s. s\<lparr>queue := Some cs\<rparr>) (w3\<lparr>db := rollOver clk k (db w3)\<rparr>))
      = updSession k (\<lambda>s. s\<lparr>queue := Some cs, shown := [uid c],
                             lastPreference := Some (currentPreferenceOf me)\<rparr>)
        (w\<lparr>db := rollOver clk k (db w)\<rparr>)"
    by (simp add: w3_def w1_def markShown_def session_upd_order updSession_db_update)
  have gs: "getAvailableSwipes clk k (db w) = (fst (getAvailableSwipes clk k (db w)), rollOver clk k (db w))"
    by (metis prod.collapse snd_getAvailableSwipes)
  have d1: "db w1 = db w" by (simp add: w1_def)
  have q1: "\<not> queueEmpty (queue (sessionOf w1 k))" by (simp add: w1_def queueEmpty_def)
  have "showNext clk k w = showCandidate clk k w3"
    using m len t q1 d1
    by (simp add: showNext_def Let_def split_beta ra fb keep w3_def snd_getAvailableSwipes)
  then show ?thesis by (simp add: sc fin)
qed


text \<open>
  C8. When \<open>showNext\<close> starts and the user's \<open>looking\<close> value differs from the
  fingerprint cached in the session, the shown-set and the queue are cleared and the
  fingerprint is set to the current value before the queue is built. The queue built
  next is the pool of the current preference over all other valid users, whatever had
  been shown before: the eligible users by the bidirectional check in ascending
  order of identifier, or every other valid user when no one is eligible. With swipes
  left, \<open>showNext\<close> then presents the first of them.
\<close>

theorem preference_change_resets:
  assumes r: "reachable (db w)" and dist: "distinct (map uid (usersCollection (db w)))"
    and f: "find (\<lambda>u. uid u = k) (usersCollection (db w)) = Some me"
    and lk: "looking me \<noteq> []"
    and ch: "lastPreference (sessionOf w k) \<noteq> Some (looking me)"
  shows "resetOnPreferenceChange me k (getSession k w) =
           updSession k (\<lambda>s. s\<lparr>shown := [], queue := None,
                                  lastPreference := Some (looking me)\<rparr>) w
       \<and> candidatePool me k (db w) =
           sort_key uid
             (if filter (strictFilter me k False [])
                   (filter (\<lambda>u. uid u \<noteq> 0) (usersCollection (db w))) = []
              then filter (relaxedFilter k False [])
                     (filter (\<lambda>u. uid u \<noteq> 0) (usersCollection (db w)))
              else filter (strictFilter me k False [])
                     (filter (\<lambda>u. uid u \<noteq> 0) (usersCollection (db w))))
       \<and> (candidatePool me k (db w) = c # cs \<longrightarrow>
            firstBuild k (resetOnPreferenceChange me k (getSession k w)) =
              updSession k (\<lambda>s. s\<lparr>shown := [], queue := Some (c # cs),
                                     lastPreference := Some (looking me)\<rparr>) w
            \<and> (0 < total (fst (getAvailableSwipes clk k (db w))) \<longrightarrow>
                 showNext clk k w =
                   (Inr [ShowProfile c],
                    updSession k (\<lambda>s. s\<lparr>queue := Some cs, shown := [uid c],
                                           lastPreference := Some (looking me)\<rparr>)
                      (w\<lparr>db := rollOver clk k (db w)\<rparr>))))"
proof -
  have cp: "currentPreferenceOf me = looking me" using lk by (simp add: currentPreferenceOf_def)
  have ch': "lastPreference (sessionOf w k) \<noteq> Some (currentPreferenceOf me)" using ch cp by simp
  have a: "resetOnPreferenceChange me k (getSession k w) =
           updSession k (\<lambda>s. s\<lparr>shown := [], queue := None,
                                  lastPreference := Some (looking me)\<rparr>) w"
    using resetOnPreferenceChange_changed[OF ch'] cp by simp
  have b: "candidatePool me k (db w) =
           sort_key uid
             (if filter (strictFilter me k False [])
                   (filter (\<lambda>u. uid u \<noteq> 0) (usersCollection (db w))) = []
              then filter (relaxedFilter k False [])
                     (filter (\<lambda>u. uid u \<noteq> 0) (usersCollection (db w)))
              else filter (strictFilter me k False [])
                     (filter (\<lambda>u. uid u \<noteq> 0) (usersCollection (db w))))"
    by (simp only: candidatePool_def validUsers_distinct[OF r dist])
  have c: "firstBuild k (resetOnPreferenceChange me k (getSession k w)) =
              updSession k (\<lambda>s. s\<lparr>shown := [], queue := Some (c # cs),
                                     lastPreference := Some (looking me)\<rparr>) w"
    if pool: "candidatePool me k (db w) = c # cs"
  proof -
    have m: "map_of (loadDB (db w)) k = Some me" using map_of_loadDB[OF r dist] f by simp
    have o: "\<exists>u\<in>set (validUsers (db w)). uid u \<noteq> k"
      using candidatePool_empty_iff[of me k "db w"] pool by simp
    show ?thesis
      unfolding a
      using firstBuild_fresh[of "updSession k (\<lambda>s. s\<lparr>shown := [], queue := None,
                                  lastPreference := Some (looking me)\<rparr>) w" k me] m o pool
      by (simp add: queueEmpty_def session_upd_order)
  qed
  have d: "showNext clk k w =
                   (Inr [ShowProfile c],
                    updSession k (\<lambda>s. s\<lparr>queue := Some cs, shown := [uid c],
                                           lastPreference := Some (looking me)\<rparr>)
                      (w\<lparr>db := rollOver clk k (db w)\<rparr>))"
    if "candidatePool me k (db w) = c # cs" "0 < total (fst (getAvailableSwipes clk k (db w)))"
    using showNext_changed[OF r dist f ch' that] cp by simp
  show ?thesis using a b c d by blast
qed

theorem preference_change_resets_witness:
  "let ann = newProfile 1 ''Ann'' ''female'' ''women'' 86400000;
       bob = newProfile 2 ''Bob'' ''male'' ''women'' 86400000;
       eve = newProfile 5 ''Eve'' ''female'' ''women'' 86400000;
       w = \<lparr>db = \<lparr>usersCollection = [ann, bob, eve], deletionReasonsCollection = [],
                  reachable = True\<rparr>,
            sessions = [1 \<mapsto> \<lparr>queue = Some [], shown = [2, 5], lastPreference = Some ''men'',
                               waitingForDeletionReason = False, step = None,
                               messageTargetId = None\<rparr>]\<rparr>;
       clk = \<lparr>now = 86400000 + 500, tzOffset = 0\<rparr>
   in showNext clk 1 w =
        (Inr [ShowProfile eve],
         w\<lparr>sessions := [1 \<mapsto> \<lparr>queue = Some [], shown = [5], lastPreference = Some ''women'',
                               waitingForDeletionReason = False, step = None,
                               messageTargetId = None\<rparr>]\<rparr>)"
proof -
  define ann where "ann = newProfile 1 ''Ann'' ''female'' ''women'' 86400000"
  define bob where "bob = newProfile 2 ''Bob'' ''male'' ''women'' 86400000"
  define eve where "eve = newProfile 5 ''Eve'' ''female'' ''women'' 86400000"
  define w where "w = \<lparr>db = \<lparr>usersCollection = [ann, bob, eve], deletionReasonsCollection = [],
                  reachable = True\<rparr>,
            sessions = [1 \<mapsto> \<lparr>queue = Some [], shown = [2, 5], lastPreference = Some ''men'',
                               waitingForDeletionReason = False, step = None,
                               messageTargetId = None\<rparr>]\<rparr>"
  define clk where "clk = \<lparr>now = 86400000 + 500, tzOffset = 0\<rparr>"
  note defs = ann_def bob_def eve_def newProfile_def
  have h1: "reachable (db w)" by (simp add: w_def)
  have h2: "distinct (map uid (usersCollection (db w)))" by (simp add: w_def defs)
  have h3: "find (\<lambda>u. uid u = 1) (usersCollection (db w)) = Some ann" by (simp add: w_def defs)
  have h4: "looking ann \<noteq> []" by (simp add: defs)
  have h5: "lastPreference (sessionOf w 1) \<noteq> Some (looking ann)"
    by (simp add: w_def sessionOf_def defs)
  have t: "0 < total (fst (getAvailableSwipes clk 1 (db w)))"
    by (simp add: w_def defs clk_def getAvailableSwipes_def checkAndResetDailySwipes_def
          findOne_def startOfDay_def)
  have ro: "rollOver clk 1 (db w) = db w"
    by (rule rollOver_today[OF h1 h3]) (simp add: clk_def defs onDay_def startOfDay_def)
  note inst = preference_change_resets[OF h1 h2 h3 h4 h5, of eve "[]" clk]
  have pool: "candidatePool ann 1 (db w) = [eve]"
    using inst by (simp add: w_def defs strictFilter_def relaxedFilter_def
        meLikesTargetGender_def targetLikesMeGender_def)
  have "showNext clk 1 w =
      (Inr [ShowProfile eve],
       updSession 1 (\<lambda>s. s\<lparr>queue := Some [], shown := [uid eve],
                              lastPreference := Some (looking ann)\<rparr>) w)"
    using inst pool t ro by simp
  then show ?thesis
    unfolding Let_def ann_def[symmetric] bob_def[symmetric] eve_def[symmetric]
      w_def[symmetric] clk_def[symmetric]
    by (simp add: updSession_def sessionOf_def w_def defs)
qed


section \<open>Deleting a profile\<close>

lemma updateFirst_at:
  "j \<notin> uid ` set xs \<Longrightarrow> uid y = j \<Longrightarrow> updateFirst j f (xs @ y # ys) = xs @ f y # ys"
  by (induction xs) auto

lemma updateFirst_absent: "j \<notin> uid ` set xs \<Longrightarrow> updateFirst j f xs = xs"
  by (induction xs) auto

lemma map_if_absent:
  "j \<notin> uid ` set us \<Longrightarrow> map (\<lambda>u. if uid u = j then f u else u) us = us"
  by (induction us) auto

lemma filter_absent: "j \<notin> uid ` set us \<Longrightarrow> filter (\<lambda>u. uid u \<noteq> j) us = us"
  by (induction us) auto

lemma updateFirst_distinct:
  "distinct (map uid us) \<Longrightarrow> (\<And>u. uid (f u) = uid u) \<Longrightarrow>
   updateFirst j f us = map (\<lambda>u. if uid u = j then f u else u) us"
  by (induction us) (auto simp: map_if_absent)

lemma deleteFirst_distinct:
  "distinct (map uid us) \<Longrightarrow> deleteFirst j us = filter (\<lambda>u. uid u \<noteq> j) us"
  by (induction us) (auto simp: filter_absent)

text \<open>What the purge makes of a document other than the deleted user's.\<close>

definition purged :: "int \<Rightarrow> profile \<Rightarrow> profile" where
  "purged x u = (if uid u = x then u else purgeFrom x u u)"

lemma uid_purged [simp]: "uid (purged x u) = uid u"
  by (simp add: purged_def purgeFrom_def)

lemma filter_purged:
  "filter (\<lambda>u. uid u \<noteq> x) (map (purged x) us) =
   map (\<lambda>u. purgeFrom x u u) (filter (\<lambda>u. uid u \<noteq> x) us)"
  by (induction us) (auto simp: purged_def purgeFrom_def)

lemma purgeAll_step:
  assumes "reachable d" "usersCollection d = map (purged x) pre @ os"
    "distinct (map uid (pre @ os))"
  shows "reachable (purgeAll x os d) \<and>
         deletionReasonsCollection (purgeAll x os d) = deletionReasonsCollection d \<and>
         usersCollection (purgeAll x os d) = map (purged x) (pre @ os)"
  using assms
proof (induction os arbitrary: pre d)
  case Nil
  then show ?case by (simp add: purgeAll_def)
next
  case (Cons ou os)
  define d1 where "d1 = (if uid ou = x then d
      else updateUserArrays (uid ou) (purgeFrom x ou) d)"
  have fresh: "uid ou \<notin> uid ` set (map (purged x) pre)"
    using Cons.prems(3) by auto
  have u1: "usersCollection d1 = map (purged x) (pre @ [ou]) @ os"
  proof (cases "uid ou = x")
    case True
    then show ?thesis using Cons.prems(2) by (simp add: d1_def purged_def)
  next
    case False
    then have po: "purged x ou = purgeFrom x ou ou" by (simp add: purged_def)
    show ?thesis
      using False Cons.prems(1,2) updateFirst_at[OF fresh refl, of "purgeFrom x ou" os]
      by (simp add: d1_def updateUserArrays_def updateOne_def po)
  qed
  have r1: "reachable d1" "deletionReasonsCollection d1 = deletionReasonsCollection d"
    using Cons.prems(1) by (auto simp: d1_def updateUserArrays_def updateOne_def)
  have "purgeAll x (ou # os) d = purgeAll x os d1"
    by (simp add: purgeAll_def d1_def)
  moreover have "distinct (map uid ((pre @ [ou]) @ os))" using Cons.prems(3) by simp
  ultimately show ?case
    using Cons.IH[of d1 "pre @ [ou]"] u1 r1 by simp
qed

lemma purgeAll_users:
  assumes "reachable d" "distinct (map uid (usersCollection d))"
  shows "usersCollection (purgeAll x (usersCollection d) d) = map (purged x) (usersCollection d)"
    and "reachable (purgeAll x (usersCollection d) d)"
    and "deletionReasonsCollection (purgeAll x (usersCollection d) d) = deletionReasonsCollection d"
  using purgeAll_step[of d x "[]" "usersCollection d"] assms by simp_all

lemma deletionReasonStep_result:
  assumes r: "reachable (db w)" and dist: "distinct (map uid (usersCollection (db w)))"
    and f: "find (\<lambda>u. uid u = k) (usersCollection (db w)) = Some p"
  shows "deletionReasonStep clk k txt w =
     (Inr [AccountDeleted],
      \<lparr>db = \<lparr>usersCollection = map (\<lambda>u. purgeFrom k u u)
                                   (filter (\<lambda>u. uid u \<noteq> k) (usersCollection (db w))),
              deletionReasonsCollection = deletionReasonsCollection (db w) @
                 [\<lparr>userId = k, reason = trim txt, timestamp = now clk\<rparr>],
              reachable = True\<rparr>,
       sessions = (sessions w)(k := None)\<rparr>)"
proof -
  have m: "map_of (loadDB (db w)) k = Some p" using map_of_loadDB[OF r dist] f by simp
  define d1 where "d1 = saveDeletionReason \<lparr>userId = k, reason = trim txt, timestamp = now clk\<rparr> (db w)"
  have d1: "reachable d1" "usersCollection d1 = usersCollection (db w)"
     "deletionReasonsCollection d1 = deletionReasonsCollection (db w) @
                 [\<lparr>userId = k, reason = trim txt, timestamp = now clk\<rparr>]"
    using r by (simp_all add: d1_def saveDeletionReason_def insertOne_def)
  have dist1: "distinct (map uid (usersCollection d1))" using dist d1 by simp
  note p = purgeAll_users[OF d1(1) dist1, of k, unfolded d1(2)]
  define d2 where "d2 = purgeAll k (usersCollection (db w)) d1"
  have dd: "distinct (map uid (usersCollection d2))"
    using dist by (simp add: d2_def p(1) comp_def)
  have u3: "usersCollection (deleteUser k d2) =
      map (\<lambda>u. purgeFrom k u u) (filter (\<lambda>u. uid u \<noteq> k) (usersCollection (db w)))"
    using p(2) deleteFirst_distinct[OF dd, of k]
    by (simp add: deleteUser_def deleteOne_def d2_def[symmetric])
       (simp add: d2_def p(1) filter_purged)
  have o3: "reachable (deleteUser k d2)"
     "deletionReasonsCollection (deleteUser k d2) = deletionReasonsCollection (db w) @
                 [\<lparr>userId = k, reason = trim txt, timestamp = now clk\<rparr>]"
    using p(2,3) d1(3) by (simp_all add: deleteUser_def deleteOne_def d2_def[symmetric])
  have "deleteUser k d2 = \<lparr>usersCollection = map (\<lambda>u. purgeFrom k u u)
                                   (filter (\<lambda>u. uid u \<noteq> k) (usersCollection (db w))),
              deletionReasonsCollection = deletionReasonsCollection (db w) @
                 [\<lparr>userId = k, reason = trim txt, timestamp = now clk\<rparr>],
              reachable = True\<rparr>"
    using u3 o3 by (cases "deleteUser k d2") simp
  then show ?thesis
    using m d1(1)
    by (simp add: deletionReasonStep_def Let_def d1_def[symmetric] findAll_def d2_def d1(2))
qed


lemma deleteCommand_result:
  assumes r: "reachable (db w)" and dist: "distinct (map uid (usersCollection (db w)))"
    and f: "find (\<lambda>u. uid u = k) (usersCollection (db w)) = Some p"
  shows "deleteCommand k w =
     (Inr [AskDeletionReason], updSession k (\<lambda>s. s\<lparr>waitingForDeletionReason := True\<rparr>) w)"
  using map_of_loadDB[OF r dist, of k] f by (simp add: deleteCommand_def)

text \<open>
  C7. For a user \<open>x\<close> with a profile, the delete command sets the session to wait
  for the reason and changes nothing stored. In that state the next text message
  (one that is not a command: a text starting with \<open>/\<close> is passed to the command
  handlers) is stored, trimmed, as the deletion reason; \<open>x\<close> is removed from the
  \<open>likes\<close>, \<open>matches\<close> and \<open>recentLikes\<close> of every other profile, which are
  otherwise kept as they are and in their order; the profile of \<open>x\<close> is deleted; and
  the session of \<open>x\<close> is removed from the session map.
\<close>

theorem deletion_purges:
  assumes r: "reachable (db w)" and dist: "distinct (map uid (usersCollection (db w)))"
    and f: "find (\<lambda>u. uid u = x) (usersCollection (db w)) = Some p"
    and nc: "\<not> startsWith ''/'' txt"
  shows "deleteCommand x w =
           (Inr [AskDeletionReason], updSession x (\<lambda>s. s\<lparr>waitingForDeletionReason := True\<rparr>) w)
       \<and> (waitingForDeletionReason (sessionOf w x) \<longrightarrow>
            onText clk x txt w =
              (Inr [AccountDeleted],
               \<lparr>db = \<lparr>usersCollection = map (\<lambda>u. purgeFrom x u u)
                                            (filter (\<lambda>u. uid u \<noteq> x) (usersCollection (db w))),
                       deletionReasonsCollection = deletionReasonsCollection (db w) @
                          [\<lparr>userId = x, reason = trim txt, timestamp = now clk\<rparr>],
                       reachable = True\<rparr>,
                sessions = (sessions w)(x := None)\<rparr>)
            \<and> find (\<lambda>u. uid u = x) (usersCollection (db (snd (onText clk x txt w)))) = None
            \<and> (\<forall>u\<in>set (usersCollection (db (snd (onText clk x txt w)))).
                  x \<notin> set (likes u) \<and> x \<notin> set (matches u) \<and> x \<notin> set (recentLikes u))
            \<and> sessions (snd (onText clk x txt w)) x = None)"
proof -
  have a: "deleteCommand x w =
           (Inr [AskDeletionReason], updSession x (\<lambda>s. s\<lparr>waitingForDeletionReason := True\<rparr>) w)"
    by (rule deleteCommand_result[OF r dist f])
  let ?res = "\<lparr>db = \<lparr>usersCollection = map (\<lambda>u. purgeFrom x u u)
                                            (filter (\<lambda>u. uid u \<noteq> x) (usersCollection (db w))),
                       deletionReasonsCollection = deletionReasonsCollection (db w) @
                          [\<lparr>userId = x, reason = trim txt, timestamp = now clk\<rparr>],
                       reachable = True\<rparr>,
                sessions = (sessions w)(x := None)\<rparr>"
  have b: "onText clk x txt w = (Inr [AccountDeleted], ?res)"
    if "waitingForDeletionReason (sessionOf w x)"
  proof -
    have "deletionReasonStep clk x txt (getSession x w) =
        (Inr [AccountDeleted],
         \<lparr>db = \<lparr>usersCollection = map (\<lambda>u. purgeFrom x u u)
                                            (filter (\<lambda>u. uid u \<noteq> x) (usersCollection (db w))),
                 deletionReasonsCollection = deletionReasonsCollection (db w) @
                          [\<lparr>userId = x, reason = trim txt, timestamp = now clk\<rparr>],
                 reachable = True\<rparr>,
          sessions = (sessions (getSession x w))(x := None)\<rparr>)"
      using deletionReasonStep_result[of "getSession x w" x p clk "txt"] r dist f by simp
    moreover have "(sessions (getSession x w))(x := None) = (sessions w)(x := None)"
      by (simp add: getSession_def updSession_def)
    ultimately show ?thesis using that nc by (simp add: onText_def Let_def)
  qed
  have c: "find (\<lambda>u. uid u = x) (usersCollection (db ?res)) = None"
    by (simp add: find_None_iff purgeFrom_def)
  have d: "\<forall>u\<in>set (usersCollection (db ?res)).
      x \<notin> set (likes u) \<and> x \<notin> set (matches u) \<and> x \<notin> set (recentLikes u)"
    by (auto simp: purgeFrom_def)
  show ?thesis using a b c d by simp
qed


theorem deletion_purges_witness:
  "let ann = newProfile 1 ''Ann'' ''female'' ''men'' 86400000;
       bob = (newProfile 2 ''Bob'' ''male'' ''women'' 86400000)
               \<lparr>likes := [1], matches := [1, 3], recentLikes := [3, 1]\<rparr>;
       cal = (newProfile 3 ''Cal'' ''female'' ''men'' 86400000)\<lparr>matches := [2]\<rparr>;
       w = \<lparr>db = \<lparr>usersCollection = [ann, bob, cal], deletionReasonsCollection = [],
                  reachable = True\<rparr>,
            sessions = Map.empty\<rparr>;
       clk = \<lparr>now = 86400000 + 500, tzOffset = 0\<rparr>
   in onText clk 1 ''  bye '' (snd (deleteCommand 1 w)) =
        (Inr [AccountDeleted],
         \<lparr>db = \<lparr>usersCollection =
                   [bob\<lparr>likes := [], matches := [3], recentLikes := [3]\<rparr>, cal],
                 deletionReasonsCollection =
                   [\<lparr>userId = 1, reason = ''bye'', timestamp = 86400000 + 500\<rparr>],
                 reachable = True\<rparr>,
          sessions = Map.empty\<rparr>)"
proof -
  define ann where "ann = newProfile 1 ''Ann'' ''female'' ''men'' 86400000"
  define bob where "bob = (newProfile 2 ''Bob'' ''male'' ''women'' 86400000)
               \<lparr>likes := [1], matches := [1, 3], recentLikes := [3, 1]\<rparr>"
  define cal where "cal = (newProfile 3 ''Cal'' ''female'' ''men'' 86400000)\<lparr>matches := [2]\<rparr>"
  define w where "w = \<lparr>db = \<lparr>usersCollection = [ann, bob, cal], deletionReasonsCollection = [],
                  reachable = True\<rparr>, sessions = Map.empty\<rparr>"
  define clk where "clk = \<lparr>now = 86400000 + 500, tzOffset = 0\<rparr>"
  define w1 where "w1 = updSession 1 (\<lambda>s. s\<lparr>waitingForDeletionReason := True\<rparr>) w"
  note defs = ann_def bob_def cal_def newProfile_def
  have h1: "reachable (db w)" by (simp add: w_def)
  have h2: "distinct (map uid (usersCollection (db w)))" by (simp add: w_def defs)
  have h3: "find (\<lambda>u. uid u = 1) (usersCollection (db w)) = Some ann" by (simp add: w_def defs)
  have h4: "\<not> startsWith ''/'' ''  bye ''" by (simp add: startsWith_def)
  have c: "snd (deleteCommand 1 w) = w1"
    using deletion_purges[OF h1 h2 h3 h4] by (simp add: w1_def)
  have g1: "reachable (db w1)" "distinct (map uid (usersCollection (db w1)))"
    "find (\<lambda>u. uid u = 1) (usersCollection (db w1)) = Some ann"
    using h1 h2 h3 by (simp_all add: w1_def)
  have g2: "waitingForDeletionReason (sessionOf w1 1)" by (simp add: w1_def)
  have tr: "trim ''  bye '' = ''bye''" by (simp add: trim_def isSpace_def)
  have "onText clk 1 ''  bye '' w1 =
      (Inr [AccountDeleted],
       \<lparr>db = \<lparr>usersCollection = map (\<lambda>u. purgeFrom 1 u u)
                                    (filter (\<lambda>u. uid u \<noteq> 1) (usersCollection (db w1))),
               deletionReasonsCollection = deletionReasonsCollection (db w1) @
                  [\<lparr>userId = 1, reason = trim ''  bye '', timestamp = now clk\<rparr>],
               reachable = True\<rparr>,
        sessions = (sessions w1)(1 := None)\<rparr>)"
    using deletion_purges[OF g1 h4, of clk] g2 by blast
  then show ?thesis
    unfolding Let_def ann_def[symmetric] bob_def[symmetric] cal_def[symmetric]
      w_def[symmetric] clk_def[symmetric] c
    by (simp add: tr w1_def w_def updSession_def clk_def defs purgeFrom_def)
qed

section \<open>Recording a like\<close>

lemma set_pushUnique [simp]: "set (pushUnique x xs) = insert x (set xs)"
  by (auto simp: pushUnique_def)

lemma pushUnique_idem [simp]: "pushUnique x (pushUnique x xs) = pushUnique x xs"
  by (simp add: pushUnique_def)

text \<open>The two objects after \<open>recordLike\<close>: what they are, and how their
  \<open>matches\<close> relate to those before.\<close>

lemma recordLike_objects:
  assumes "m k = Some me" "m t = Some them"
  shows "\<exists>found m2 me2 them2.
           recordLike k t m = (found, m2) \<and> m2 k = Some me2 \<and> m2 t = Some them2
         \<and> (t = k \<longrightarrow> them2 = me2)
         \<and> (found \<longrightarrow> set (matches me2) = insert t (set (matches me))
                     \<and> set (matches them2) = insert k (set (matches them)))
         \<and> (\<not> found \<longrightarrow> matches me2 = matches me \<and> matches them2 = matches them)"
proof (cases "t = k")
  case True
  then show ?thesis using assms
    by (auto simp: recordLike_def modify_def Let_def)
next
  case False
  then show ?thesis using assms
    by (auto simp: recordLike_def modify_def Let_def)
qed


section \<open>Symmetry of matches\<close>

text \<open>The invariant of the data model: for stored profiles \<open>a\<close> and \<open>b\<close>, the
  identifier of \<open>b\<close> is in \<open>matches\<close> of \<open>a\<close> exactly when that of \<open>a\<close> is in
  \<open>matches\<close> of \<open>b\<close>.\<close>

definition matchesSymmetric :: "database \<Rightarrow> bool" where
  "matchesSymmetric d =
     (\<forall>a\<in>set (usersCollection d). \<forall>b\<in>set (usersCollection d).
        (uid b \<in> set (matches a)) = (uid a \<in> set (matches b)))"

text \<open>The part of the store the invariant reads: identifiers and \<open>matches\<close>.\<close>

definition matchTable :: "database \<Rightarrow> (int \<times> int list) list" where
  "matchTable d = map (\<lambda>u. (uid u, matches u)) (usersCollection d)"

definition symTable :: "(int \<times> int list) list \<Rightarrow> bool" where
  "symTable tbl = (\<forall>(i, ms)\<in>set tbl. \<forall>(j, ns)\<in>set tbl. (j \<in> set ms) = (i \<in> set ns))"

lemma matchesSymmetric_table: "matchesSymmetric d = symTable (matchTable d)"
  by (simp add: matchesSymmetric_def symTable_def matchTable_def)

lemma map_fst_matchTable: "map fst (matchTable d) = map uid (usersCollection d)"
  by (simp add: matchTable_def comp_def)

lemma matchTable_updateFirst_frame:
  assumes "\<And>u. uid (f u) = uid u" "\<And>u. matches (f u) = matches u"
  shows "map (\<lambda>u. (uid u, matches u)) (updateFirst j f us) = map (\<lambda>u. (uid u, matches u)) us"
  by (induction us) (auto simp: assms)

lemma matchTable_rollOver [simp]: "matchTable (rollOver clk k d) = matchTable d"
  using rollOver_cases[of clk k d]
  by (auto simp: matchTable_def matchTable_updateFirst_frame)

lemma rollOver_unreachable: "\<not> reachable d \<Longrightarrow> rollOver clk k d = d"
  using rollOver_cases[of clk k d] by auto

lemma increment_rolled:
  "reachable d \<Longrightarrow>
   snd (incrementDailySwipes clk k d) =
     (rollOver clk k d)\<lparr>usersCollection :=
        updateFirst k (\<lambda>u. u\<lparr>dailySwipes := dailySwipes u + 1\<rparr>)
          (usersCollection (rollOver clk k d))\<rparr>"
  by (auto simp: incrementDailySwipes_def rollOver_def updateOne_def findOne_def
        checkAndResetDailySwipes_def Let_def split: option.splits)

lemma matchTable_increment [simp]:
  "matchTable (snd (incrementDailySwipes clk k d)) = matchTable d"
proof (cases "reachable d")
  case True
  then show ?thesis
    by (simp add: increment_rolled) (simp add: matchTable_def matchTable_updateFirst_frame
        flip: matchTable_rollOver[of clk k d, unfolded matchTable_def])
next
  case False
  then show ?thesis
    by (simp add: incrementDailySwipes_def checkAndResetDailySwipes_def findOne_def updateOne_def)
qed

lemma reachable_increment [simp]:
  "reachable (snd (incrementDailySwipes clk k d)) = reachable d"
proof (cases "reachable d")
  case True
  then show ?thesis by (simp add: increment_rolled)
next
  case False
  then show ?thesis
    by (simp add: incrementDailySwipes_def checkAndResetDailySwipes_def findOne_def updateOne_def)
qed


text \<open>Presentation and the handlers that only consume a swipe leave identifiers
  and \<open>matches\<close> alone.\<close>

lemma frame_getAvailableSwipes [simp]:
  "reachable (snd (getAvailableSwipes clk k d)) = reachable d"
  "matchTable (snd (getAvailableSwipes clk k d)) = matchTable d"
  by (simp_all add: snd_getAvailableSwipes)

lemma frame_showCandidate [simp]:
  "reachable (db (snd (showCandidate clk k w))) = reachable (db w)"
  "matchTable (db (snd (showCandidate clk k w))) = matchTable (db w)"
  using showCandidate_db[of clk k w] by auto

lemma frame_showOrRebuild [simp]:
  "reachable (db (snd (showOrRebuild clk k w))) = reachable (db w)"
  "matchTable (db (snd (showOrRebuild clk k w))) = matchTable (db w)"
proof -
  obtain r1 w1 where sc: "showCandidate clk k w = (r1, w1)" by force
  have a: "reachable (db w1) = reachable (db w)" "matchTable (db w1) = matchTable (db w)"
    using frame_showCandidate[of clk k w] by (simp_all add: sc)
  show "reachable (db (snd (showOrRebuild clk k w))) = reachable (db w)"
    using a by (cases r1) (simp_all add: showOrRebuild_def sc Let_def)
  show "matchTable (db (snd (showOrRebuild clk k w))) = matchTable (db w)"
    using a by (cases r1) (simp_all add: showOrRebuild_def sc Let_def)
qed

lemma frame_resumeAfterLike [simp]:
  "reachable (db (snd (resumeAfterLike clk k said w))) = reachable (db w)"
  "matchTable (db (snd (resumeAfterLike clk k said w))) = matchTable (db w)"
proof -
  define w1 where "w1 = setQueue k (buildCandidateQueue k True w)"
  obtain r2 w2 where sc: "showCandidate clk k w1 = (r2, w2)" by force
  have d1: "db w1 = db w" by (simp add: w1_def)
  have a: "reachable (db w2) = reachable (db w)" "matchTable (db w2) = matchTable (db w)"
    using frame_showCandidate[of clk k w1] unfolding sc d1 by simp_all
  show "reachable (db (snd (resumeAfterLike clk k said w))) = reachable (db w)"
    using a d1 by (cases r2) (simp_all add: resumeAfterLike_def sc Let_def w1_def[symmetric])
  show "matchTable (db (snd (resumeAfterLike clk k said w))) = matchTable (db w)"
    using a d1 by (cases r2) (simp_all add: resumeAfterLike_def sc Let_def w1_def[symmetric])
qed

lemma frame_showNext [simp]:
  "reachable (db (snd (showNext clk k w))) = reachable (db w)"
  "matchTable (db (snd (showNext clk k w))) = matchTable (db w)"
  by (simp_all add: showNext_def Let_def split_beta split: option.splits)

lemma frame_messageAction [simp]:
  "reachable (db (snd (messageAction clk k t w))) = reachable (db w)"
  "matchTable (db (snd (messageAction clk k t w))) = matchTable (db w)"
  by (simp_all add: messageAction_def Let_def split_beta split: option.splits sum.splits)

lemma frame_deleteCommand [simp]: "db (snd (deleteCommand k w)) = db w"
  by (simp add: deleteCommand_def split: option.splits)

lemma frame_purchase:
  "reachable d \<Longrightarrow> matchTable (d\<lparr>usersCollection :=
       updateFirst k (\<lambda>u. u\<lparr>purchasedSwipes := purchasedSwipes u - 1\<rparr>) (usersCollection d)\<rparr>)
     = matchTable d"
  by (simp add: matchTable_def matchTable_updateFirst_frame)

lemma frame_skipAction [simp]:
  "reachable (db (snd (skipAction clk k w))) = reachable (db w)"
  "matchTable (db (snd (skipAction clk k w))) = matchTable (db w)"
  by (auto simp: skipAction_def Let_def split_beta updateOne_def findOne_def frame_purchase
           split: option.splits sum.splits if_splits)


text \<open>The invariant carried through the handlers: the backend answers,
  identifiers are unique, and \<open>matches\<close> is symmetric.\<close>

definition storeOK :: "database \<Rightarrow> bool" where
  "storeOK d = (reachable d \<and> distinct (map fst (matchTable d)) \<and> symTable (matchTable d))"

lemma storeOK_frame:
  "reachable d' = reachable d \<Longrightarrow> matchTable d' = matchTable d \<Longrightarrow> storeOK d' = storeOK d"
  by (simp add: storeOK_def)

lemma storeOK_iff:
  "storeOK d = (reachable d \<and> distinct (map uid (usersCollection d)) \<and> matchesSymmetric d)"
  by (simp add: storeOK_def matchesSymmetric_table map_fst_matchTable)

lemma matchTable_updateUserArrays:
  assumes "reachable d" "distinct (map uid (usersCollection d))"
    "\<And>u. uid (g u) = uid u" "\<And>u. matches (g u) = M"
  shows "matchTable (updateUserArrays j g d) =
           map (\<lambda>(i, ms). (i, if i = j then M else ms)) (matchTable d)"
  using assms
  by (simp add: updateUserArrays_def updateOne_def matchTable_def updateFirst_distinct comp_def)

lemma uids_updateUserArrays:
  assumes "\<And>u. uid (g u) = uid u"
  shows "map uid (usersCollection (updateUserArrays j g d)) = map uid (usersCollection d)"
  by (simp add: updateUserArrays_def updateOne_def map_uid_updateFirst assms)

lemma reachable_updateUserArrays [simp]:
  "reachable (updateUserArrays j g d) = reachable d"
  by (simp add: updateUserArrays_def updateOne_def)

lemma table_unique:
  "distinct (map fst tbl) \<Longrightarrow> (i, a) \<in> set tbl \<Longrightarrow> (i, b) \<in> set tbl \<Longrightarrow> a = b"
  by (meson eq_key_imp_eq_value)

lemma symTable_update2:
  assumes s: "symTable tbl" and d: "distinct (map fst tbl)"
    and k: "(k, Mk0) \<in> set tbl" and t: "(t, Mt0) \<in> set tbl"
    and al: "t = k \<longrightarrow> Mt = Mk"
    and ch: "(set Mk = insert t (set Mk0) \<and> set Mt = insert k (set Mt0))
             \<or> (set Mk = set Mk0 \<and> set Mt = set Mt0)"
  shows "symTable (map (\<lambda>(i, ms). (i, if i = t then Mt else if i = k then Mk else ms)) tbl)"
proof -
  have u: "(i, ms) \<in> set tbl \<Longrightarrow> i = k \<Longrightarrow> ms = Mk0" for i ms
    using table_unique[OF d _ k] by auto
  have v: "(i, ms) \<in> set tbl \<Longrightarrow> i = t \<Longrightarrow> ms = Mt0" for i ms
    using table_unique[OF d _ t] by auto
  have kt: "(t \<in> set Mk0) = (k \<in> set Mt0)"
    using s k t by (auto simp: symTable_def)
  have ok: "(j \<in> set Mk0) = (k \<in> set ns)" if "(j, ns) \<in> set tbl" for j ns
    using s k that by (auto simp: symTable_def)
  have ot: "(j \<in> set Mt0) = (t \<in> set ns)" if "(j, ns) \<in> set tbl" for j ns
    using s t that by (auto simp: symTable_def)
  have oo: "(j \<in> set ms) = (i \<in> set ns)" if "(i, ms) \<in> set tbl" "(j, ns) \<in> set tbl" for i j ms ns
    using s that by (auto simp: symTable_def)
  define N where "N = (\<lambda>i ms. if i = t then Mt else if i = k then Mk else ms)"
  have key: "(j \<in> set (N i ms)) = (i \<in> set (N j ns))"
    if a: "(i, ms) \<in> set tbl" and b: "(j, ns) \<in> set tbl" for i j ms ns
  proof -
    note facts = u[OF a] v[OF a] u[OF b] v[OF b] ok[OF a] ok[OF b] ot[OF a] ot[OF b] oo[OF a b] kt al
    consider "i = t" "j = t" | "i = t" "j \<noteq> t" "j = k" | "i = t" "j \<noteq> t" "j \<noteq> k"
      | "i \<noteq> t" "i = k" "j = t" | "i \<noteq> t" "i = k" "j \<noteq> t" "j = k"
      | "i \<noteq> t" "i = k" "j \<noteq> t" "j \<noteq> k" | "i \<noteq> t" "i \<noteq> k" "j = t"
      | "i \<noteq> t" "i \<noteq> k" "j \<noteq> t" "j = k" | "i \<noteq> t" "i \<noteq> k" "j \<noteq> t" "j \<noteq> k"
      by blast
    then show ?thesis
    proof cases
      case 1 then show ?thesis by (simp add: N_def)
    next
      case 2 then show ?thesis using ch facts by (auto simp: N_def)
    next
      case 3 then show ?thesis using ch facts by (auto simp: N_def)
    next
      case 4 then show ?thesis using ch facts by (auto simp: N_def)
    next
      case 5 then show ?thesis by (simp add: N_def)
    next
      case 6 then show ?thesis using ch facts by (auto simp: N_def)
    next
      case 7 then show ?thesis using ch facts by (auto simp: N_def)
    next
      case 8 then show ?thesis using ch facts by (auto simp: N_def)
    next
      case 9 then show ?thesis using facts by (auto simp: N_def)
    qed
  qed
  have "symTable (map (\<lambda>(i, ms). (i, N i ms)) tbl)"
    unfolding symTable_def using key by (auto split: prod.splits)
  then show ?thesis by (simp add: N_def)
qed

lemma symTable_purge:
  assumes "symTable tbl"
  shows "symTable (map (\<lambda>(i, ms). (i, filter (\<lambda>j. j \<noteq> x) ms)) (filter (\<lambda>(i, ms). i \<noteq> x) tbl))"
  using assms unfolding symTable_def by (auto split: prod.splits) 


lemma find_in_table:
  "find (\<lambda>u. uid u = j) (usersCollection d) = Some p \<Longrightarrow> (j, matches p) \<in> set (matchTable d)"
  by (auto simp: find_Some_iff matchTable_def in_set_conv_nth intro!: image_eqI[where x = p])

text \<open>Writing the two objects back, as the like handler and the message branch
  do, keeps the invariant.\<close>

lemma persist_storeOK:
  assumes ok: "storeOK d0"
    and fr: "reachable d2 = reachable d0" "matchTable d2 = matchTable d0"
    and fk: "find (\<lambda>u. uid u = k) (usersCollection d0) = Some me"
    and ft: "find (\<lambda>u. uid u = t) (usersCollection d0) = Some them"
    and gk: "\<And>u. uid (Gk u) = uid u" "\<And>u. matches (Gk u) = matches me2"
    and gt: "\<And>u. uid (Gt u) = uid u" "\<And>u. matches (Gt u) = matches them2"
    and al: "t = k \<longrightarrow> them2 = me2"
    and ch: "(set (matches me2) = insert t (set (matches me))
              \<and> set (matches them2) = insert k (set (matches them)))
             \<or> (matches me2 = matches me \<and> matches them2 = matches them)"
  shows "storeOK (updateUserArrays t Gt (updateUserArrays k Gk d2))"
proof -
  have r2: "reachable d2" and dist2: "distinct (map uid (usersCollection d2))"
    using ok fr by (simp_all add: storeOK_def flip: map_fst_matchTable)
  define d3 where "d3 = updateUserArrays k Gk d2"
  have t3: "matchTable d3 = map (\<lambda>(i, ms). (i, if i = k then matches me2 else ms)) (matchTable d0)"
    unfolding d3_def using matchTable_updateUserArrays[OF r2 dist2 gk] fr by simp
  have r3: "reachable d3" using r2 by (simp add: d3_def)
  have dist3: "distinct (map uid (usersCollection d3))"
    using dist2 by (simp add: d3_def uids_updateUserArrays gk)
  have t4: "matchTable (updateUserArrays t Gt d3) =
      map (\<lambda>(i, ms). (i, if i = t then matches them2 else if i = k then matches me2 else ms))
        (matchTable d0)"
    using matchTable_updateUserArrays[OF r3 dist3 gt] by (simp add: t3 split_beta comp_def)
  have s: "symTable (map (\<lambda>(i, ms). (i, if i = t then matches them2 else if i = k then matches me2 else ms))
        (matchTable d0))"
  proof (rule symTable_update2[where ?Mk0.0 = "matches me" and ?Mt0.0 = "matches them"])
    show "symTable (matchTable d0)" "distinct (map fst (matchTable d0))"
      using ok by (simp_all add: storeOK_def)
    show "(k, matches me) \<in> set (matchTable d0)" by (rule find_in_table[OF fk])
    show "(t, matches them) \<in> set (matchTable d0)" by (rule find_in_table[OF ft])
    show "t = k \<longrightarrow> matches them2 = matches me2" using al by simp
    show "set (matches me2) = insert t (set (matches me)) \<and>
          set (matches them2) = insert k (set (matches them)) \<or>
          set (matches me2) = set (matches me) \<and> set (matches them2) = set (matches them)"
      using ch by auto
  qed
  have "distinct (map fst (matchTable (updateUserArrays t Gt d3)))"
    using ok by (simp add: t4 storeOK_def comp_def split_beta)
  then show ?thesis
    using s r3 by (simp add: storeOK_def t4 d3_def[symmetric])
qed

lemma likeAction_storeOK:
  assumes ok: "storeOK (db w)"
  shows "storeOK (db (snd (likeAction clk k t w)))"
proof -
  have r: "reachable (db w)" and dist: "distinct (map uid (usersCollection (db w)))"
    using ok by (simp_all add: storeOK_iff)
  note mo = map_of_loadDB[OF r dist]
  show ?thesis
  proof (cases "find (\<lambda>u. uid u = k) (usersCollection (db w))")
    case None
    then show ?thesis using ok by (simp add: likeAction_def mo)
  next
    case me: (Some me)
    show ?thesis
    proof (cases "find (\<lambda>u. uid u = t) (usersCollection (db w))")
      case None
      have "storeOK (db (snd (likeAction clk k t w))) = storeOK (db w)"
        by (rule storeOK_frame) (simp_all add: likeAction_def mo me None Let_def)
      then show ?thesis using ok by simp
    next
      case them: (Some them)
      define d1 where "d1 = snd (getAvailableSwipes clk k (db w))"
      show ?thesis
      proof (cases "total (fst (getAvailableSwipes clk k (db w))) \<le> 0")
        case True
        have "storeOK (db (snd (likeAction clk k t w))) = storeOK (db w)"
          by (rule storeOK_frame) (simp_all add: likeAction_def mo me them Let_def split_beta True)
        then show ?thesis using ok by simp
      next
        case False
        from recordLike_objects[of "map_of (loadDB (db w))" k me t them]
        obtain found m2 me2 them2 where
          rl: "recordLike k t (map_of (loadDB (db w))) = (found, m2)"
          and m2: "m2 k = Some me2" "m2 t = Some them2"
          and al: "t = k \<longrightarrow> them2 = me2"
          and ch: "found \<longrightarrow> set (matches me2) = insert t (set (matches me))
                     \<and> set (matches them2) = insert k (set (matches them))"
                  "\<not> found \<longrightarrow> matches me2 = matches me \<and> matches them2 = matches them"
          using mo me them by auto
        define d2 where "d2 = (if purchasedSwipes me > 0 then d1
             else snd (incrementDailySwipes clk k d1))"
        define Gk :: "profile \<Rightarrow> profile" where "Gk = (\<lambda>u. u\<lparr>likes := likes me2, matches := matches me2,
             purchasedSwipes := (if purchasedSwipes me > 0 then purchasedSwipes me - 1
                                 else purchasedSwipes me)\<rparr>)"
        define Gt :: "profile \<Rightarrow> profile" where "Gt = (\<lambda>u. u\<lparr>likes := likes them2, matches := matches them2,
             recentLikes := recentLikes them2\<rparr>)"
        define d4 where "d4 = updateUserArrays t Gt (updateUserArrays k Gk d2)"
        have fr: "reachable d2 = reachable (db w)" "matchTable d2 = matchTable (db w)"
          by (simp_all add: d2_def d1_def)
        have ok4: "storeOK d4"
          unfolding d4_def
          by (rule persist_storeOK[OF ok fr me them _ _ _ _ al])
             (use ch in \<open>auto simp: Gk_def Gt_def\<close>)
        have "\<exists>said. likeAction clk k t w =
            resumeAfterLike clk k said (clearMessageStep k (getSession k (w\<lparr>db := d4\<rparr>)))"
          using False
          by (auto simp: likeAction_def mo me them Let_def split_beta rl m2
                d1_def[symmetric] d2_def[symmetric] Gk_def[symmetric] Gt_def[symmetric]
                d4_def[symmetric])
        then obtain said where "likeAction clk k t w =
            resumeAfterLike clk k said (clearMessageStep k (getSession k (w\<lparr>db := d4\<rparr>)))" ..
        then have "storeOK (db (snd (likeAction clk k t w))) = storeOK d4"
          by (intro storeOK_frame) simp_all
        with ok4 show ?thesis by simp
      qed
    qed
  qed
qed


lemma table_self_update:
  "distinct (map fst tbl) \<Longrightarrow> (k, M) \<in> set tbl \<Longrightarrow>
   map (\<lambda>(i, ms). (i, if i = k then M else ms)) tbl = tbl"
  by (rule map_idI) (auto dest: table_unique)

lemma matchTable_updateUserArrays_frame:
  assumes "\<And>u. uid (g u) = uid u" "\<And>u. matches (g u) = matches u"
  shows "matchTable (updateUserArrays j g d) = matchTable d"
  by (simp add: updateUserArrays_def updateOne_def matchTable_def
        matchTable_updateFirst_frame[OF assms])

lemma frame_resumeAfterMessage [simp]:
  "reachable (db (snd (resumeAfterMessage clk k said a w))) = reachable (db w)"
  "matchTable (db (snd (resumeAfterMessage clk k said a w))) = matchTable (db w)"
proof -
  define w1 where "w1 = setQueue k (buildCandidateQueue k True w)"
  obtain r2 w2 where sc: "showCandidate clk k w1 = (r2, w2)" by force
  have d1: "db w1 = db w" by (simp add: w1_def)
  have a: "reachable (db w2) = reachable (db w)" "matchTable (db w2) = matchTable (db w)"
    using frame_showCandidate[of clk k w1] unfolding sc d1 by simp_all
  show "reachable (db (snd (resumeAfterMessage clk k said a w))) = reachable (db w)"
    using a by (cases r2) (simp_all add: resumeAfterMessage_def sc w1_def[symmetric])
  show "matchTable (db (snd (resumeAfterMessage clk k said a w))) = matchTable (db w)"
    using a by (cases r2) (simp_all add: resumeAfterMessage_def sc w1_def[symmetric])
qed

lemma sendMessageStep_storeOK:
  assumes ok: "storeOK (db w)"
  shows "storeOK (db (snd (sendMessageStep clk k txt w)))"
proof -
  have r: "reachable (db w)" and dist: "distinct (map uid (usersCollection (db w)))"
    using ok by (simp_all add: storeOK_iff)
  note mo = map_of_loadDB[OF r dist]
  show ?thesis
  proof (cases "messageTargetId (sessionOf w k)")
    case None
    then show ?thesis using ok by (simp add: sendMessageStep_def)
  next
    case tg: (Some t)
    show ?thesis
    proof (cases "t = 0")
      case True
      then show ?thesis using ok by (simp add: sendMessageStep_def tg)
    next
      case nz: False
      show ?thesis
      proof (cases "find (\<lambda>u. uid u = k) (usersCollection (db w))")
        case None
        then show ?thesis using ok nz by (simp add: sendMessageStep_def tg mo)
      next
        case me: (Some me)
        show ?thesis
        proof (cases "find (\<lambda>u. uid u = t) (usersCollection (db w))")
          case None
          have "storeOK (db (snd (sendMessageStep clk k txt w))) = storeOK (db w)"
            by (rule storeOK_frame)
               (simp_all add: sendMessageStep_def tg nz mo me None Let_def split_beta
                  split: sum.splits)
          then show ?thesis using ok by simp
        next
          case them: (Some them)
          from recordLike_objects[of "map_of (loadDB (db w))" k me t them]
          obtain found m2 me2 them2 where
            rl: "recordLike k t (map_of (loadDB (db w))) = (found, m2)"
            and m2: "m2 k = Some me2" "m2 t = Some them2"
            and al: "t = k \<longrightarrow> them2 = me2"
            and ch: "found \<longrightarrow> set (matches me2) = insert t (set (matches me))
                       \<and> set (matches them2) = insert k (set (matches them))"
                    "\<not> found \<longrightarrow> matches me2 = matches me \<and> matches them2 = matches them"
            using mo me them by auto
          define d1 where "d1 = snd (getAvailableSwipes clk k (db w))"
          define Gk :: "profile \<Rightarrow> profile"
            where "Gk = (\<lambda>u. u\<lparr>likes := likes me2, matches := matches me2\<rparr>)"
          define Gt :: "profile \<Rightarrow> profile"
            where "Gt = (\<lambda>u. u\<lparr>likes := likes them2, matches := matches them2\<rparr>)"
          define Gr :: "profile \<Rightarrow> profile"
            where "Gr = (\<lambda>u. u\<lparr>likes := likes them2, recentLikes := recentLikes them2\<rparr>)"
          define d3 where "d3 = (if found then updateUserArrays t Gt (updateUserArrays k Gk d1)
               else updateUserArrays t Gr (updateUserArrays k Gk d1))"
          have fr: "reachable d1 = reachable (db w)" "matchTable d1 = matchTable (db w)"
            by (simp_all add: d1_def)
          have ok3: "storeOK d3"
          proof (cases found)
            case True
            have "storeOK (updateUserArrays t Gt (updateUserArrays k Gk d1))"
              by (rule persist_storeOK[OF ok fr me them _ _ _ _ al])
                 (use ch True in \<open>auto simp: Gk_def Gt_def\<close>)
            then show ?thesis by (simp add: d3_def True)
          next
            case False
            have r1: "reachable d1" and dist1: "distinct (map uid (usersCollection d1))"
              using ok fr by (simp_all add: storeOK_def flip: map_fst_matchTable)
            have "matchTable (updateUserArrays k Gk d1) =
                map (\<lambda>(i, ms). (i, if i = k then matches me2 else ms)) (matchTable (db w))"
              using matchTable_updateUserArrays[OF r1 dist1, of Gk "matches me2" k] fr
              by (simp add: Gk_def)
            also have "\<dots> = matchTable (db w)"
              using ok ch False find_in_table[OF me]
              by (intro table_self_update) (simp_all add: storeOK_def)
            finally have "matchTable d3 = matchTable (db w)"
              using False by (simp add: d3_def matchTable_updateUserArrays_frame Gr_def)
            moreover have "reachable d3 = reachable (db w)"
              using fr by (simp add: d3_def)
            ultimately show ?thesis using ok storeOK_frame by blast
          qed
          have "\<exists>said a. sendMessageStep clk k txt w =
              resumeAfterMessage clk k said a
                (updSession k (\<lambda>s. s\<lparr>step := None, messageTargetId := None\<rparr>) (w\<lparr>db := d3\<rparr>))"
          proof (cases found)
            case True
            then show ?thesis
              by (auto simp: sendMessageStep_def tg nz mo me them Let_def split_beta rl m2
                  d1_def[symmetric] Gk_def[symmetric] Gt_def[symmetric] d3_def)
          next
            case False
            then show ?thesis
              by (auto simp: sendMessageStep_def tg nz mo me them Let_def split_beta rl m2
                  d1_def[symmetric] Gk_def[symmetric] Gr_def[symmetric] d3_def)
          qed
          then obtain said a where "sendMessageStep clk k txt w =
              resumeAfterMessage clk k said a
                (updSession k (\<lambda>s. s\<lparr>step := None, messageTargetId := None\<rparr>) (w\<lparr>db := d3\<rparr>))"
            by blast
          then have "storeOK (db (snd (sendMessageStep clk k txt w))) = storeOK d3"
            by (intro storeOK_frame) simp_all
          with ok3 show ?thesis by simp
        qed
      qed
    qed
  qed
qed


lemma matchTable_purge:
  "matchTable \<lparr>usersCollection = map (\<lambda>u. purgeFrom x u u) (filter (\<lambda>u. uid u \<noteq> x) us),
               deletionReasonsCollection = rs, reachable = b\<rparr> =
   map (\<lambda>(i, ms). (i, filter (\<lambda>j. j \<noteq> x) ms))
     (filter (\<lambda>(i, ms). i \<noteq> x) (map (\<lambda>u. (uid u, matches u)) us))"
  by (induction us) (auto simp: matchTable_def purgeFrom_def)

lemma deletionReasonStep_storeOK:
  assumes ok: "storeOK (db w)"
  shows "storeOK (db (snd (deletionReasonStep clk k txt w)))"
proof -
  have r: "reachable (db w)" and dist: "distinct (map uid (usersCollection (db w)))"
    using ok by (simp_all add: storeOK_iff)
  show ?thesis
  proof (cases "find (\<lambda>u. uid u = k) (usersCollection (db w))")
    case None
    then have "map_of (loadDB (db w)) k = None" using map_of_loadDB[OF r dist, of k] by simp
    then show ?thesis using ok by (simp add: deletionReasonStep_def)
  next
    case (Some p)
    let ?tbl = "map (\<lambda>(i, ms). (i, filter (\<lambda>j. j \<noteq> k) ms))
                  (filter (\<lambda>(i, ms). i \<noteq> k) (matchTable (db w)))"
    have s: "symTable ?tbl" using ok by (intro symTable_purge) (simp add: storeOK_def)
    have "map fst ?tbl = filter (\<lambda>i. i \<noteq> k) (map fst (matchTable (db w)))"
      by (induction "matchTable (db w)") (auto simp: filter_map comp_def split_beta)
    then have d: "distinct (map fst ?tbl)" using ok by (simp add: storeOK_def)
    show ?thesis
      unfolding deletionReasonStep_result[OF r dist Some]
      using s d by (simp add: storeOK_def matchTable_purge) (simp add: matchTable_def)
  qed
qed

lemma getSession_db [simp]: "db (getSession k w) = db w"
  by (simp add: getSession_def updSession_def)

lemma onText_storeOK:
  assumes ok: "storeOK (db w)"
  shows "storeOK (db (snd (onText clk k txt w)))"
proof -
  have ok0: "storeOK (db (getSession k w))" using ok by simp
  show ?thesis
    using ok0 deletionReasonStep_storeOK[OF ok0, of clk k "txt"]
      sendMessageStep_storeOK[OF ok0, of clk k "txt"]
    by (simp add: onText_def Let_def split: option.splits dialogueStep.splits)
qed


section \<open>Sequences of updates\<close>

text \<open>The updates the bot dispatches on: the \<open>/match\<close> command, the buttons under a
  presented profile, the \<open>/delete\<close> command and a text message. Each handler runs to
  its end before the next update is taken.\<close>

datatype update =
    MatchCommand int
  | SkipButton int
  | MessageButton int int
  | LikeButton int int
  | DeleteCommand int
  | TextMessage int string

definition handleUpdate :: "clock \<Rightarrow> update \<Rightarrow> world \<Rightarrow> (error + reply list) \<times> world" where
  "handleUpdate clk u w =
     (case u of
        MatchCommand k \<Rightarrow> showNext clk k w
      | SkipButton k \<Rightarrow> skipAction clk k w
      | MessageButton k t \<Rightarrow> messageAction clk k t w
      | LikeButton k t \<Rightarrow> likeAction clk k t w
      | DeleteCommand k \<Rightarrow> deleteCommand k w
      | TextMessage k txt \<Rightarrow> onText clk k txt w)"

fun runUpdates :: "(clock \<times> update) list \<Rightarrow> world \<Rightarrow> world" where
  "runUpdates [] w = w"
| "runUpdates ((clk, u) # us) w = runUpdates us (snd (handleUpdate clk u w))"

lemma handleUpdate_storeOK:
  assumes ok: "storeOK (db w)"
  shows "storeOK (db (snd (handleUpdate clk u w)))"
proof (cases u)
  case (MatchCommand k)
  have "storeOK (db (snd (showNext clk k w))) = storeOK (db w)" by (rule storeOK_frame) simp_all
  then show ?thesis using ok MatchCommand by (simp add: handleUpdate_def)
next
  case (SkipButton k)
  have "storeOK (db (snd (skipAction clk k w))) = storeOK (db w)" by (rule storeOK_frame) simp_all
  then show ?thesis using ok SkipButton by (simp add: handleUpdate_def)
next
  case (MessageButton k t)
  have "storeOK (db (snd (messageAction clk k t w))) = storeOK (db w)"
    by (rule storeOK_frame) simp_all
  then show ?thesis using ok MessageButton by (simp add: handleUpdate_def)
next
  case (LikeButton k t)
  then show ?thesis using likeAction_storeOK[OF ok] by (simp add: handleUpdate_def)
next
  case (DeleteCommand k)
  then show ?thesis using ok by (simp add: handleUpdate_def)
next
  case (TextMessage k msg)
  then show ?thesis using onText_storeOK[OF ok] by (simp add: handleUpdate_def)
qed

lemma runUpdates_storeOK:
  "storeOK (db w) \<Longrightarrow> storeOK (db (runUpdates us w))"
  by (induction us w rule: runUpdates.induct) (simp_all add: handleUpdate_storeOK)

section \<open>What sending a message costs\<close>

lemma resumeAfterMessage_db_stable:
  assumes "rollOver clk k (db w) = db w"
  shows "db (snd (resumeAfterMessage clk k said a w)) = db w"
proof -
  define w1 where "w1 = setQueue k (buildCandidateQueue k True w)"
  obtain r2 w2 where sc: "showCandidate clk k w1 = (r2, w2)" by force
  have d1: "db w1 = db w" by (simp add: w1_def)
  have "db w2 = db w"
    using showCandidate_db_stable[of clk k w1] assms d1 by (simp add: sc)
  then show ?thesis
    by (cases r2) (simp_all add: resumeAfterMessage_def sc w1_def[symmetric])
qed

lemma find_map_uid:
  "(\<And>u. uid (g u) = uid u) \<Longrightarrow>
   find (\<lambda>u. uid u = k) (map g us) = map_option g (find (\<lambda>u. uid u = k) us)"
  by (induction us) auto

text \<open>What the message branch writes, for a sender \<open>k\<close> whose counter is of today
  and a stored target \<open>t\<close> other than the sender: the like, and the match or the
  recent like. The swipe counters are not among the fields written.\<close>

definition messageWrites :: "int \<Rightarrow> int \<Rightarrow> profile \<Rightarrow> profile \<Rightarrow> profile \<Rightarrow> profile" where
  "messageWrites k t me them u =
     (if uid u = k
      then u\<lparr>likes := pushUnique t (likes me),
             matches := (if k \<in> set (likes them) then pushUnique t (matches me) else matches me)\<rparr>
      else if uid u = t
      then (if k \<in> set (likes them)
            then u\<lparr>likes := likes them, matches := pushUnique k (matches them)\<rparr>
            else u\<lparr>likes := likes them, recentLikes := pushMostRecent k (recentLikes them)\<rparr>)
      else u)"

lemma sendMessageStep_db:
  assumes r: "reachable (db w)" and dist: "distinct (map uid (usersCollection (db w)))"
    and me: "find (\<lambda>u. uid u = k) (usersCollection (db w)) = Some me"
    and them: "find (\<lambda>u. uid u = t) (usersCollection (db w)) = Some them"
    and tg: "messageTargetId (sessionOf w k) = Some t" and nz: "t \<noteq> 0" and ne: "t \<noteq> k"
    and today: "onDay (tzOffset clk) (startOfDay (tzOffset clk) (now clk)) me"
  shows "db (snd (sendMessageStep clk k txt w)) =
           (db w)\<lparr>usersCollection := map (messageWrites k t me them) (usersCollection (db w))\<rparr>"
proof -
  note mo = map_of_loadDB[OF r dist]
  define found where "found = (k \<in> set (likes them))"
  define me2 where "me2 = me\<lparr>likes := pushUnique t (likes me),
      matches := (if found then pushUnique t (matches me) else matches me)\<rparr>"
  define them2 where "them2 = (if found then them\<lparr>matches := pushUnique k (matches them)\<rparr>
      else them\<lparr>recentLikes := pushMostRecent k (recentLikes them)\<rparr>)"
  obtain m2 where rl: "recordLike k t (map_of (loadDB (db w))) = (found, m2)"
    and m2: "m2 k = Some me2" "m2 t = Some them2"
    using ne me them
    by (cases found)
       (auto simp: recordLike_def modify_def Let_def mo found_def me2_def them2_def)
  obtain a where d1: "getAvailableSwipes clk k (db w) = (a, db w)"
    using snd_getAvailableSwipes[of clk k "db w"] rollOver_today[OF r me today]
    by (metis prod.collapse)
  define Gk :: "profile \<Rightarrow> profile"
    where "Gk = (\<lambda>u. u\<lparr>likes := likes me2, matches := matches me2\<rparr>)"
  define Gt :: "profile \<Rightarrow> profile"
    where "Gt = (if found then (\<lambda>u. u\<lparr>likes := likes them2, matches := matches them2\<rparr>)
                 else (\<lambda>u. u\<lparr>likes := likes them2, recentLikes := recentLikes them2\<rparr>))"
  define d2 where "d2 = updateUserArrays k Gk (db w)"
  define d3 where "d3 = updateUserArrays t Gt d2"
  have uG: "\<And>u. uid (Gk u) = uid u" "\<And>u. uid (Gt u) = uid u"
    by (simp_all add: Gk_def Gt_def)
  have u2: "usersCollection d2 = map (\<lambda>u. if uid u = k then Gk u else u) (usersCollection (db w))"
    using r dist by (simp add: d2_def updateUserArrays_def updateOne_def updateFirst_distinct uG)
  have r2: "reachable d2" "deletionReasonsCollection d2 = deletionReasonsCollection (db w)"
    using r by (simp_all add: d2_def updateUserArrays_def updateOne_def)
  have dist2: "distinct (map uid (usersCollection d2))"
    using dist by (simp add: d2_def uids_updateUserArrays uG)
  have "usersCollection d3 = map (\<lambda>u. if uid u = t then Gt u else u) (usersCollection d2)"
    using r2 dist2 by (simp add: d3_def updateUserArrays_def updateOne_def updateFirst_distinct uG)
  then have u3: "usersCollection d3 = map (messageWrites k t me them) (usersCollection (db w))"
    unfolding u2 using ne
    by (auto simp: messageWrites_def Gk_def Gt_def me2_def them2_def found_def)
  have o3: "reachable d3" "deletionReasonsCollection d3 = deletionReasonsCollection (db w)"
    using r2 by (simp_all add: d3_def updateUserArrays_def updateOne_def)
  have e3: "d3 = (db w)\<lparr>usersCollection := map (messageWrites k t me them) (usersCollection (db w))\<rparr>"
    using u3 o3 r by (cases d3; cases "db w") simp
  have f3: "find (\<lambda>u. uid u = k) (usersCollection d3) = Some (messageWrites k t me them me)"
    unfolding u3 using me by (simp add: find_map_uid messageWrites_def)
  have "onDay (tzOffset clk) (startOfDay (tzOffset clk) (now clk)) (messageWrites k t me them me)"
    using today by (simp add: messageWrites_def onDay_def)
  then have st: "rollOver clk k d3 = d3" by (rule rollOver_today[OF o3(1) f3])
  define w1 where "w1 = updSession k (\<lambda>s. s\<lparr>step := None, messageTargetId := None\<rparr>) (w\<lparr>db := d3\<rparr>)"
  have "\<exists>said a. sendMessageStep clk k txt w = resumeAfterMessage clk k said a w1"
  proof (cases found)
    case True
    then have g: "Gt = (\<lambda>u. u\<lparr>likes := likes them2, matches := matches them2\<rparr>)"
      by (simp add: Gt_def)
    show ?thesis
      using True
      by (auto simp: sendMessageStep_def tg nz mo me them Let_def rl m2 d1
            Gk_def[symmetric] g[symmetric] d2_def[symmetric] d3_def[symmetric] w1_def)
  next
    case False
    then have g: "Gt = (\<lambda>u. u\<lparr>likes := likes them2, recentLikes := recentLikes them2\<rparr>)"
      by (simp add: Gt_def)
    show ?thesis
      using False
      by (auto simp: sendMessageStep_def tg nz mo me them Let_def rl m2 d1
            Gk_def[symmetric] g[symmetric] d2_def[symmetric] d3_def[symmetric] w1_def)
  qed
  then obtain said a where "sendMessageStep clk k txt w = resumeAfterMessage clk k said a w1"
    by blast
  moreover have "db w1 = d3" by (simp add: w1_def)
  ultimately have "db (snd (sendMessageStep clk k txt w)) = d3"
    using resumeAfterMessage_db_stable[of clk k w1] st by simp
  then show ?thesis by (simp add: e3)
qed


text \<open>
  C1. Sending the message text consumes no swipe. Ann presses the message button
  under Bob's profile and sends her text: the like is recorded, and her counters
  are what they were, with five purchased credits as with none.
\<close>

theorem message_send_consumes_no_swipe:
  "(let clk = \<lparr>now = 86400000 + 500, tzOffset = 0\<rparr>;
        ann = (newProfile 1 ''Ann'' ''female'' ''men'' 86400000)\<lparr>purchasedSwipes := 5\<rparr>;
        bob = newProfile 2 ''Bob'' ''male'' ''women'' 86400000;
        w = \<lparr>db = \<lparr>usersCollection = [ann, bob], deletionReasonsCollection = [],
                   reachable = True\<rparr>,
             sessions = Map.empty\<rparr>;
        w1 = snd (messageAction clk 1 2 w)
    in fst (messageAction clk 1 2 w) = Inr [AskMessage 2]
     \<and> step (sessionOf w1 1) = Some (WaitingMessage 2)
     \<and> usersCollection (db w1) = [ann, bob]
     \<and> usersCollection (db (snd (onText clk 1 ''hi'' w1))) =
          [ann\<lparr>likes := [2]\<rparr>, bob\<lparr>recentLikes := [1]\<rparr>])
   \<and>
   (let clk = \<lparr>now = 86400000 + 500, tzOffset = 0\<rparr>;
        ann = (newProfile 1 ''Ann'' ''female'' ''men'' 86400000)\<lparr>dailySwipes := 3\<rparr>;
        bob = newProfile 2 ''Bob'' ''male'' ''women'' 86400000;
        w = \<lparr>db = \<lparr>usersCollection = [ann, bob], deletionReasonsCollection = [],
                   reachable = True\<rparr>,
             sessions = Map.empty\<rparr>;
        w1 = snd (messageAction clk 1 2 w)
    in fst (messageAction clk 1 2 w) = Inr [AskMessage 2]
     \<and> step (sessionOf w1 1) = Some (WaitingMessage 2)
     \<and> usersCollection (db w1) = [ann, bob]
     \<and> usersCollection (db (snd (onText clk 1 ''hi'' w1))) =
          [ann\<lparr>likes := [2]\<rparr>, bob\<lparr>recentLikes := [1]\<rparr>])"
proof -
  define clk where "clk = \<lparr>now = 86400000 + 500, tzOffset = 0\<rparr>"
  define bob where "bob = newProfile 2 ''Bob'' ''male'' ''women'' 86400000"
  have run: "fst (messageAction clk 1 2 w) = Inr [AskMessage 2]
     \<and> step (sessionOf (snd (messageAction clk 1 2 w)) 1) = Some (WaitingMessage 2)
     \<and> usersCollection (db (snd (messageAction clk 1 2 w))) = [ann, bob]
     \<and> usersCollection (db (snd (onText clk 1 ''hi'' (snd (messageAction clk 1 2 w))))) =
          [ann\<lparr>likes := [2]\<rparr>, bob\<lparr>recentLikes := [1]\<rparr>]"
    if w: "w = \<lparr>db = \<lparr>usersCollection = [ann, bob], deletionReasonsCollection = [],
                   reachable = True\<rparr>, sessions = Map.empty\<rparr>"
      and ann: "ann = (newProfile 1 ''Ann'' ''female'' ''men'' 86400000)
                        \<lparr>dailySwipes := n, purchasedSwipes := c\<rparr>"
      and pos: "0 < max 0 (20 - n) + c"
    for w ann n c
  proof -
    define w1 where "w1 = updSession 1 (\<lambda>s. s\<lparr>step := Some (WaitingMessage 2),
                                             messageTargetId := Some 2\<rparr>) w"
    have m: "messageAction clk 1 2 w = (Inr [AskMessage 2], w1)"
      using pos
      by (simp add: messageAction_def findOne_def getAvailableSwipes_def
            checkAndResetDailySwipes_def startOfDay_def Let_def w ann bob_def newProfile_def
            clk_def w1_def)
    define w0 where "w0 = getSession 1 w1"
    have h: "reachable (db w0)" "distinct (map uid (usersCollection (db w0)))"
      "find (\<lambda>u. uid u = 1) (usersCollection (db w0)) = Some ann"
      "find (\<lambda>u. uid u = 2) (usersCollection (db w0)) = Some bob"
      "messageTargetId (sessionOf w0 1) = Some 2" "(2::int) \<noteq> 0" "(2::int) \<noteq> 1"
      "onDay (tzOffset clk) (startOfDay (tzOffset clk) (now clk)) ann"
      by (simp_all add: w0_def w1_def w ann bob_def newProfile_def onDay_def startOfDay_def clk_def)
    have s: "step (sessionOf w0 1) = Some (WaitingMessage 2)"
      "\<not> waitingForDeletionReason (sessionOf w0 1)"
      by (simp_all add: w0_def w1_def w freshSession_def sessionOf_def updSession_def getSession_def)
    have "onText clk 1 ''hi'' w1 = sendMessageStep clk 1 ''hi'' w0"
      using s by (simp add: onText_def Let_def startsWith_def w0_def[symmetric])
    then have "usersCollection (db (snd (onText clk 1 ''hi'' w1))) =
        map (messageWrites 1 2 ann bob) [ann, bob]"
      using sendMessageStep_db[OF h, of "''hi''"] by (simp add: w0_def w1_def w)
    also have "\<dots> = [ann\<lparr>likes := [2]\<rparr>, bob\<lparr>recentLikes := [1]\<rparr>]"
      by (simp add: messageWrites_def ann bob_def newProfile_def pushUnique_def pushMostRecent_def)
    finally show ?thesis
      by (simp add: m) (simp add: w1_def w sessionOf_def updSession_def freshSession_def)
  qed
  show ?thesis
    unfolding Let_def clk_def[symmetric] bob_def[symmetric]
    using run[where n = 0 and c = 5, OF refl refl] run[where n = 3 and c = 0, OF refl refl]
    by (simp add: newProfile_def)
qed


section \<open>Match symmetry over sequences of updates\<close>

text \<open>An example: Ann and Cal are matched and Ann likes Bob; Bob presses the
  message button under Ann's profile and sends a text, which matches them; then
  Cal deletes the account.\<close>

definition exampleStore :: world where
  "exampleStore =
     \<lparr>db = \<lparr>usersCollection =
                [(newProfile 1 ''Ann'' ''female'' ''men'' 86400000)\<lparr>likes := [2, 3], matches := [3]\<rparr>,
                 newProfile 2 ''Bob'' ''male'' ''women'' 86400000,
                 (newProfile 3 ''Cal'' ''male'' ''women'' 86400000)\<lparr>likes := [1], matches := [1]\<rparr>],
             deletionReasonsCollection = [], reachable = True\<rparr>,
      sessions = Map.empty\<rparr>"

definition exampleUpdates :: "(clock \<times> update) list" where
  "exampleUpdates =
     map (Pair \<lparr>now = 86400000 + 500, tzOffset = 0\<rparr>)
       [MessageButton 2 1, TextMessage 2 ''hi'', DeleteCommand 3, TextMessage 3 ''bye'']"

lemma exampleRun:
  "map (\<lambda>u. (uid u, matches u))
     (usersCollection (db (runUpdates (take 2 exampleUpdates) exampleStore)))
     = [(1, [3, 2]), (2, [1]), (3, [1])]"
  "map (\<lambda>u. (uid u, matches u))
     (usersCollection (db (runUpdates exampleUpdates exampleStore)))
     = [(1, [2]), (2, [1])]"
proof -
  define clk where "clk = \<lparr>now = 86400000 + 500, tzOffset = 0\<rparr>"
  define ann where "ann = (newProfile 1 ''Ann'' ''female'' ''men'' 86400000)\<lparr>likes := [2, 3], matches := [3]\<rparr>"
  define bob where "bob = newProfile 2 ''Bob'' ''male'' ''women'' 86400000"
  define cal where "cal = (newProfile 3 ''Cal'' ''male'' ''women'' 86400000)\<lparr>likes := [1], matches := [1]\<rparr>"
  define w where "w = exampleStore"
  note ps = ann_def bob_def cal_def newProfile_def
  have w: "w = \<lparr>db = \<lparr>usersCollection = [ann, bob, cal], deletionReasonsCollection = [],
                      reachable = True\<rparr>, sessions = Map.empty\<rparr>"
    by (simp add: w_def exampleStore_def ps)
  define w1 where "w1 = updSession 2 (\<lambda>s. s\<lparr>step := Some (WaitingMessage 1),
                                             messageTargetId := Some 1\<rparr>) w"
  have m: "messageAction clk 2 1 w = (Inr [AskMessage 1], w1)"
    by (simp add: messageAction_def findOne_def getAvailableSwipes_def
          checkAndResetDailySwipes_def startOfDay_def Let_def w ps clk_def w1_def)
  define w0 where "w0 = getSession 2 w1"
  have h: "reachable (db w0)" "distinct (map uid (usersCollection (db w0)))"
    "find (\<lambda>u. uid u = 2) (usersCollection (db w0)) = Some bob"
    "find (\<lambda>u. uid u = 1) (usersCollection (db w0)) = Some ann"
    "messageTargetId (sessionOf w0 2) = Some 1" "(1::int) \<noteq> 0" "(1::int) \<noteq> 2"
    "onDay (tzOffset clk) (startOfDay (tzOffset clk) (now clk)) bob"
    by (simp_all add: w0_def w1_def w ps onDay_def startOfDay_def clk_def)
  have s: "step (sessionOf w0 2) = Some (WaitingMessage 1)"
    "\<not> waitingForDeletionReason (sessionOf w0 2)"
    by (simp_all add: w0_def w1_def w freshSession_def sessionOf_def updSession_def getSession_def)
  define w2 where "w2 = snd (onText clk 2 ''hi'' w1)"
  have "onText clk 2 ''hi'' w1 = sendMessageStep clk 2 ''hi'' w0"
    using s by (simp add: onText_def Let_def startsWith_def w0_def[symmetric])
  then have "db w2 = (db w0)\<lparr>usersCollection := map (messageWrites 2 1 bob ann) [ann, bob, cal]\<rparr>"
    using sendMessageStep_db[OF h, of "''hi''"] by (simp add: w2_def w0_def w1_def w)
  then have d2: "db w2 = \<lparr>usersCollection = [ann\<lparr>matches := [3, 2]\<rparr>, bob\<lparr>likes := [1], matches := [1]\<rparr>, cal],
       deletionReasonsCollection = [], reachable = True\<rparr>"
    by (simp add: messageWrites_def ps pushUnique_def w0_def w1_def w)
  have g: "reachable (db w2)" "distinct (map uid (usersCollection (db w2)))"
    "find (\<lambda>u. uid u = 3) (usersCollection (db w2)) = Some cal"
    by (simp_all add: d2 ps)
  define w3 where "w3 = updSession 3 (\<lambda>s. s\<lparr>waitingForDeletionReason := True\<rparr>) w2"
  have c: "deleteCommand 3 w2 = (Inr [AskDeletionReason], w3)"
    unfolding w3_def by (rule deleteCommand_result[OF g])
  have g3: "reachable (db (getSession 3 w3))"
    "distinct (map uid (usersCollection (db (getSession 3 w3))))"
    "find (\<lambda>u. uid u = 3) (usersCollection (db (getSession 3 w3))) = Some cal"
    using g by (simp_all add: w3_def)
  have "waitingForDeletionReason (sessionOf (getSession 3 w3) 3)" by (simp add: w3_def)
  then have "onText clk 3 ''bye'' w3 = deletionReasonStep clk 3 ''bye'' (getSession 3 w3)"
    by (simp add: onText_def Let_def startsWith_def)
  then have d4: "usersCollection (db (snd (onText clk 3 ''bye'' w3))) =
      [ann\<lparr>likes := [2], matches := [2]\<rparr>, bob\<lparr>likes := [1], matches := [1]\<rparr>]"
    unfolding deletionReasonStep_result[OF g3]
    by (simp add: w3_def d2 purgeFrom_def ps)
  have up: "exampleUpdates = map (Pair clk)
       [MessageButton 2 1, TextMessage 2 ''hi'', DeleteCommand 3, TextMessage 3 ''bye'']"
    by (simp add: exampleUpdates_def clk_def)
  have r2: "runUpdates (take 2 exampleUpdates) exampleStore = w2"
    unfolding up w_def[symmetric] by (simp add: handleUpdate_def m w2_def)
  have r4: "runUpdates exampleUpdates exampleStore = snd (onText clk 3 ''bye'' w3)"
    unfolding up w_def[symmetric] by (simp add: handleUpdate_def m w2_def[symmetric] c)
  show "map (\<lambda>u. (uid u, matches u))
     (usersCollection (db (runUpdates (take 2 exampleUpdates) exampleStore)))
     = [(1, [3, 2]), (2, [1]), (3, [1])]"
    by (simp add: r2 d2 ps)
  show "map (\<lambda>u. (uid u, matches u))
     (usersCollection (db (runUpdates exampleUpdates exampleStore)))
     = [(1, [2]), (2, [1])]"
    by (simp add: r4 d4 ps)
qed

text \<open>
  C4. Match symmetry is an invariant of the stored profiles: in a store that
  answers, with unique identifiers, where \<open>matches\<close> is symmetric, it is symmetric
  again after any sequence of updates (likes, message buttons and message texts,
  skips, \<open>/match\<close>, \<open>/delete\<close> and the deletion reason), each handled to its end
  before the next.
\<close>

theorem match_symmetry_invariant:
  assumes "reachable (db w)" and "distinct (map uid (usersCollection (db w)))"
    and "matchesSymmetric (db w)"
  shows "matchesSymmetric (db (runUpdates us w))
       \<and> distinct (map uid (usersCollection (db (runUpdates us w))))"
  using runUpdates_storeOK[of w us] assms by (simp add: storeOK_iff)

theorem match_symmetry_invariant_witness:
  "matchesSymmetric (db (runUpdates exampleUpdates exampleStore))
   \<and> map (\<lambda>u. (uid u, matches u))
       (usersCollection (db (runUpdates (take 2 exampleUpdates) exampleStore)))
       = [(1, [3, 2]), (2, [1]), (3, [1])]
   \<and> map (\<lambda>u. (uid u, matches u))
       (usersCollection (db (runUpdates exampleUpdates exampleStore)))
       = [(1, [2]), (2, [1])]"
proof -
  have h: "reachable (db exampleStore)" "distinct (map uid (usersCollection (db exampleStore)))"
    "matchesSymmetric (db exampleStore)"
    by (simp_all add: exampleStore_def newProfile_def matchesSymmetric_def)
  show ?thesis
    using match_symmetry_invariant[OF h, of exampleUpdates] exampleRun by blast
qed


section \<open>What a pass depends on\<close>

text \<open>Eligibility reads the identifier, the gender and the preference of a
  profile, and nothing else of it.\<close>

definition viewOf :: "profile \<Rightarrow> int \<times> string \<times> string" where
  "viewOf u = (uid u, gender u, looking u)"


lemma map_updateFirst_frame:
  "(\<And>u. f (g u) = f u) \<Longrightarrow> map f (updateFirst j g us) = map f us"
  by (induction us) auto








section \<open>What a like and a skip leave as it was\<close>

lemma viewOf_rollOver [simp]:
  "map viewOf (usersCollection (rollOver clk k d)) = map viewOf (usersCollection d)"
  using rollOver_cases[of clk k d] by (auto simp: map_updateFirst_frame viewOf_def)





lemma viewOf_increment [simp]:
  "map viewOf (usersCollection (snd (incrementDailySwipes clk k d))) = map viewOf (usersCollection d)"
proof (cases "reachable d")
  case True
  then show ?thesis by (simp add: increment_rolled map_updateFirst_frame viewOf_def)
next
  case False
  then show ?thesis
    by (simp add: incrementDailySwipes_def checkAndResetDailySwipes_def findOne_def updateOne_def)
qed








section \<open>The state in the middle of a pass\<close>



text \<open>In the middle of a pass, after \<open>j\<close> presentations: the shown-set holds the
  first \<open>j\<close> identifiers of the pool, the queue the profiles of the others, and
  the stored profiles are the ones of the start as far as eligibility goes.\<close>

definition midPass :: "int \<Rightarrow> profile list \<Rightarrow> int list \<Rightarrow> nat \<Rightarrow> world \<Rightarrow> bool" where
  "midPass k us ids j w =
     (reachable (db w)
      \<and> map viewOf (usersCollection (db w)) = map viewOf us
      \<and> shown (sessionOf w k) = take j ids
      \<and> map_option (map uid) (queue (sessionOf w k)) = Some (drop j ids))"









lemma sessionOf_clearMessageStep [simp]:
  "shown (sessionOf (clearMessageStep k w) j) = shown (sessionOf w j)"
  "queue (sessionOf (clearMessageStep k w) j) = queue (sessionOf w j)"
  by (simp_all add: clearMessageStep_def split: option.splits dialogueStep.splits)

lemma midPass_after_write [simp]:
  "midPass k us ids j (clearMessageStep k (getSession k (w\<lparr>db := d\<rparr>))) =
     (reachable d \<and> map viewOf (usersCollection d) = map viewOf us
      \<and> shown (sessionOf w k) = take j ids
      \<and> map_option (map uid) (queue (sessionOf w k)) = Some (drop j ids))"
  by (simp add: midPass_def)






section \<open>Going through the pool\<close>















end
